theory Spec2Isabelle
  imports Main
begin

section \<open>Faults\<close>

text \<open>
  The exception classes that \<^verbatim>\<open>tesselite/pubsub.py\<close> names, raises or can meet.
  \<open>KeyboardInterrupt\<close> and \<open>SystemExit\<close> derive from \<open>BaseException\<close> only, so an
  \<^verbatim>\<open>except Exception\<close> clause lets them pass; every other class is an \<open>Exception\<close>.
  \<open>RedisConnectionError\<close> is \<^verbatim>\<open>redis.exceptions.ConnectionError\<close>, \<open>GaiError\<close> is
  \<^verbatim>\<open>socket.gaierror\<close>, the five after it are the classes of
  \<^verbatim>\<open>google.api_core.exceptions\<close>, \<open>DataError\<close> is \<^verbatim>\<open>redis.exceptions.DataError\<close>, and
  \<open>OtherError\<close> stands for any further
  \<open>Exception\<close> subclass a user callback or a library may raise.
\<close>

datatype exn =
    GaiError
  | RedisConnectionError
  | ServiceUnavailable
  | RetryError
  | AlreadyExists
  | NotFound
  | InvalidArgument
  | TimeoutError
  | MessageProcessingException
  | UnicodeDecodeError
  | UnicodeEncodeError
  | AttributeError
  | KeyError
  | DataError
  | OtherError string
  | KeyboardInterrupt
  | SystemExit int

fun is_Exception :: "exn \<Rightarrow> bool" where
  "is_Exception KeyboardInterrupt = False"
| "is_Exception (SystemExit _) = False"
| "is_Exception _ = True"

section \<open>The retry policy\<close>

text \<open>
  An operation runs on a state \<open>'s\<close> and either raises (\<open>Inl\<close>) or returns (\<open>Inr\<close>);
  \<open>None\<close> stands for an operation that never comes back, which happens when a retry
  loop inside it never ends.
\<close>

type_synonym ('r, 's) operation = "'s \<Rightarrow> ((exn + 'r) \<times> 's) option"

text \<open>
  Modelled from the spec: the decorator \<^verbatim>\<open>connexion\<close> of \<^verbatim>\<open>tesselite.exceptions\<close>, which
  \<^verbatim>\<open>pubsub.py\<close> imports and whose source is not among the repository's files. Section
  4.1 of the specification gives its contract: on success the operation's result is returned
  unchanged; a fault of the noisy set is suppressed and the call ends as a success without
  a result (Python's \<open>None\<close>, here \<open>Inr None\<close>); a fault of the expected set makes the wrapper
  run the operation again after a backoff delay; any other fault is raised again. The cases
  are tried in the order in which the specification lists them. The specification puts no
  bound on the number of retries, so the model takes the number of attempts it may make as
  fuel and answers \<open>None\<close> when they are used up with the operation still failing. Delays
  and the wrapper's log lines are not modelled.
\<close>

fun connexion :: "nat \<Rightarrow> exn list \<Rightarrow> exn list \<Rightarrow> ('r, 's) operation
    \<Rightarrow> 's \<Rightarrow> ((exn + 'r option) \<times> 's) option" where
  "connexion 0 expected_errors noisy_errors operation s = None"
| "connexion (Suc fuel) expected_errors noisy_errors operation s =
     (case operation s of
        None \<Rightarrow> None
      | Some (Inr r, s') \<Rightarrow> Some (Inr (Some r), s')
      | Some (Inl e, s') \<Rightarrow>
          if e \<in> set noisy_errors then Some (Inr None, s')
          else if e \<in> set expected_errors then
            connexion fuel expected_errors noisy_errors operation s'
          else Some (Inl e, s'))"

section \<open>Text and bytes\<close>

text \<open>
  A Python \<^verbatim>\<open>str\<close> is a sequence of Unicode code points and a \<^verbatim>\<open>bytes\<close> object a sequence
  of numbers below 256; both are lists of naturals here. \<^verbatim>\<open>str.encode()\<close> and
  \<^verbatim>\<open>bytes.decode()\<close> are called without arguments in \<^verbatim>\<open>pubsub.py\<close>, which means UTF-8
  with strict error handling: a surrogate code point cannot be encoded
  (\<open>UnicodeEncodeError\<close>, here \<open>None\<close>), and a byte sequence that is not the shortest
  UTF-8 form of a sequence of code points other than surrogates cannot be decoded
  (\<open>UnicodeDecodeError\<close>, here \<open>None\<close>).
\<close>

type_synonym str = "nat list"
type_synonym bytes = "nat list"

definition surrogate :: "nat \<Rightarrow> bool" where
  "surrogate c = (55296 \<le> c \<and> c \<le> 57343)"

definition encode_point :: "nat \<Rightarrow> bytes option" where
  "encode_point c =
     (if c < 128 then Some [c]
      else if c < 2048 then Some [192 + c div 64, 128 + c mod 64]
      else if c < 65536 then
        (if surrogate c then None
         else Some [224 + c div 4096, 128 + c div 64 mod 64, 128 + c mod 64])
      else if c < 1114112 then
        Some [240 + c div 262144, 128 + c div 4096 mod 64, 128 + c div 64 mod 64,
              128 + c mod 64]
      else None)"

fun encode :: "str \<Rightarrow> bytes option" where
  "encode [] = Some []"
| "encode (c # cs) =
     (case encode_point c of
        None \<Rightarrow> None
      | Some bs \<Rightarrow> (case encode cs of None \<Rightarrow> None | Some rest \<Rightarrow> Some (bs @ rest)))"

definition continuation :: "nat \<Rightarrow> bool" where
  "continuation b = (128 \<le> b \<and> b < 192)"

fun decode :: "bytes \<Rightarrow> str option" where
  "decode [] = Some []"
| "decode (b0 # bs) =
     (if b0 < 128 then map_option ((#) b0) (decode bs)
      else if 194 \<le> b0 \<and> b0 < 224 then
        (case bs of
           b1 # rest \<Rightarrow>
             if continuation b1
             then map_option ((#) ((b0 - 192) * 64 + (b1 - 128))) (decode rest)
             else None
         | _ \<Rightarrow> None)
      else if 224 \<le> b0 \<and> b0 < 240 then
        (case bs of
           b1 # b2 # rest \<Rightarrow>
             if continuation b1 \<and> continuation b2
                \<and> 2048 \<le> (b0 - 224) * 4096 + (b1 - 128) * 64 + (b2 - 128)
                \<and> \<not> surrogate ((b0 - 224) * 4096 + (b1 - 128) * 64 + (b2 - 128))
             then map_option ((#) ((b0 - 224) * 4096 + (b1 - 128) * 64 + (b2 - 128)))
                    (decode rest)
             else None
         | _ \<Rightarrow> None)
      else if 240 \<le> b0 \<and> b0 < 245 then
        (case bs of
           b1 # b2 # b3 # rest \<Rightarrow>
             if continuation b1 \<and> continuation b2 \<and> continuation b3
                \<and> 65536 \<le> (b0 - 240) * 262144 + (b1 - 128) * 4096 + (b2 - 128) * 64 + (b3 - 128)
                \<and> (b0 - 240) * 262144 + (b1 - 128) * 4096 + (b2 - 128) * 64 + (b3 - 128) < 1114112
             then map_option
                    ((#) ((b0 - 240) * 262144 + (b1 - 128) * 4096 + (b2 - 128) * 64 + (b3 - 128)))
                    (decode rest)
             else None
         | _ \<Rightarrow> None)
      else None)"

section \<open>The client factory\<close>

datatype client_type = RedisPubsub | GCPPubSub

text \<open>
  What a call of \<^verbatim>\<open>pubsubFactory\<close> ends in: a returned class, a raised exception (by the
  name of its class), or the end of the process with an exit status (\<^verbatim>\<open>exit(1)\<close>), after
  the lines it logged at level fatal.
\<close>

datatype factory_result =
    Returns client_type
  | Raises string
  | Exits int "str list"

text \<open>A string literal of the source, as its code points.\<close>

definition lit :: "string \<Rightarrow> str" where
  "lit s = map of_char s"

text \<open>
  \<^verbatim>\<open>str.upper\<close> maps every code point of the string to its full Unicode uppercase, which
  may be more than one code point, and joins the results. Written out are the ASCII range
  and the ten code points beyond it whose uppercase is made of ASCII letters only: the
  sharp s (\<open>SS\<close>), the dotless i (\<open>I\<close>), the long s (\<open>S\<close>) and the ligatures of the block at
  U+FB00 (\<open>FF\<close>, \<open>FI\<close>, \<open>FL\<close>, \<open>FFI\<close>, \<open>FFL\<close>, \<open>ST\<close>, \<open>ST\<close>). The rest of the Unicode table is
  the parameter \<open>beyond\<close>; what the theorems need of it is a hypothesis of theirs.
\<close>

definition upper_point :: "(nat \<Rightarrow> str) \<Rightarrow> nat \<Rightarrow> str" where
  "upper_point beyond c =
     (if 97 \<le> c \<and> c \<le> 122 then [c - 32]
      else if c < 128 then [c]
      else if c = 223 then [83, 83]
      else if c = 305 then [73]
      else if c = 383 then [83]
      else if c = 64256 then [70, 70]
      else if c = 64257 then [70, 73]
      else if c = 64258 then [70, 76]
      else if c = 64259 then [70, 70, 73]
      else if c = 64260 then [70, 70, 76]
      else if c = 64261 \<or> c = 64262 then [83, 84]
      else beyond c)"

definition upper :: "(nat \<Rightarrow> str) \<Rightarrow> str \<Rightarrow> str" where
  "upper beyond s = concat (map (upper_point beyond) s)"

text \<open>
  \<^verbatim>\<open>pubsubFactory(broker)\<close>. \<open>BROKER\<close> is the module's global of that name, which the fatal
  log line prints (not the argument \<^verbatim>\<open>broker\<close>).
\<close>

definition pubsubFactory :: "(nat \<Rightarrow> str) \<Rightarrow> str \<Rightarrow> str \<Rightarrow> factory_result" where
  "pubsubFactory beyond BROKER broker =
     (if upper beyond broker = lit ''REDIS'' then Returns RedisPubsub
      else if upper beyond broker = lit ''GCP-PUBSUB'' then Returns GCPPubSub
      else Exits 1 [lit ''Broker type <'' @ BROKER @ lit ''> not available yet.''])"

text \<open>
  The specification's words for the match: an identifier is supported when it is one of
  the two names in any letter casing, that is, when it agrees with the name, written in
  small letters, code point by code point up to the case of ASCII letters.
\<close>

definition same_letter :: "nat \<Rightarrow> nat \<Rightarrow> bool" where
  "same_letter c d = (c = d \<or> (97 \<le> d \<and> d \<le> 122 \<and> c + 32 = d))"

definition any_casing_of :: "string \<Rightarrow> str \<Rightarrow> bool" where
  "any_casing_of name s = list_all2 same_letter s (lit name)"

text \<open>
  What the code accepts beyond that: the dotless i (U+0131) where the name has an \<open>i\<close>, and
  the long s (U+017F) where it has an \<open>s\<close>.
\<close>

definition spells :: "nat \<Rightarrow> nat \<Rightarrow> bool" where
  "spells c d = (same_letter c d \<or> (c = 305 \<and> d = 105) \<or> (c = 383 \<and> d = 115))"

definition spelling_of :: "string \<Rightarrow> str \<Rightarrow> bool" where
  "spelling_of name s = list_all2 spells s (lit name)"

text \<open>The ten code points beyond ASCII that \<open>upper_point\<close> writes out.\<close>

definition listed :: "nat \<Rightarrow> bool" where
  "listed c \<longleftrightarrow> c = 223 \<or> c = 305 \<or> c = 383 \<or> c = 64256 \<or> c = 64257 \<or> c = 64258
     \<or> c = 64259 \<or> c = 64260 \<or> c = 64261 \<or> c = 64262"

text \<open>
  A string that no joined uppercase other than that of single code points can be: its
  code points are ASCII, none is an \<open>F\<close>, and no \<open>S\<close> is followed by an \<open>S\<close> or a \<open>T\<close>.
\<close>

fun plain :: "str \<Rightarrow> bool" where
  "plain [] = True"
| "plain (x # xs) =
     (x < 128 \<and> x \<noteq> 70 \<and> (x = 83 \<longrightarrow> (case xs of [] \<Rightarrow> True | y # ys \<Rightarrow> y \<noteq> 83 \<and> y \<noteq> 84))
      \<and> plain xs)"

section \<open>What both clients share\<close>

text \<open>
  A caller publishes text or bytes. The logger's output is kept as the list of its lines; a
  line that logs an exception object keeps the exception.
\<close>

datatype message = Text str | Bytes bytes

datatype log_line = Debug string | Info string | Error exn

text \<open>
  The user's callback receives the decoded payload. It may keep a state of its own, of any
  type \<open>'u\<close>, so that it can answer differently from one call to the next, and it either
  returns (\<open>None\<close>) or raises.
\<close>

type_synonym 'u callback = "str \<Rightarrow> 'u \<Rightarrow> exn option \<times> 'u"

text \<open>Python's truth value of an optional string argument: \<open>None\<close> and \<open>''\<close> are false.\<close>

fun truthy :: "string option \<Rightarrow> bool" where
  "truthy None = False"
| "truthy (Some t) = (t \<noteq> [])"

section \<open>The key-value-store client\<close>

text \<open>
  An event as \<^verbatim>\<open>redis.client.PubSub.listen\<close> yields it: a dictionary with the keys
  \<^verbatim>\<open>type\<close>, \<^verbatim>\<open>channel\<close> and \<^verbatim>\<open>data\<close>. The data of a message event are bytes; the data of a
  subscription confirmation are a number.
\<close>

datatype event_data = DataBytes bytes | DataInt int

record event =
  ev_type :: string
  ev_channel :: string
  ev_data :: event_data

text \<open>What the iteration over \<^verbatim>\<open>listen()\<close> does next: it yields an event or it raises.\<close>

datatype listen_item = Yields event | ListenRaises exn

text \<open>What \<^verbatim>\<open>self._client.publish\<close> is given as the value to send.\<close>

datatype redis_value = Value message | EventDict event

datatype connection = Live | Released

text \<open>
  The attributes of \<^verbatim>\<open>RedisEnv\<close> that the client reads. The class is defined outside
  \<^verbatim>\<open>pubsub.py\<close>, so its values are taken as given.
\<close>

record redis_env =
  HOST :: string
  PORT :: string
  PASSWORD :: string
  TOPIC_NAME :: string

text \<open>
  The state a \<^verbatim>\<open>RedisPubsub\<close> object works on. \<open>client\<close>, \<open>pubsub\<close> and \<open>topic\<close> are the
  attributes \<^verbatim>\<open>_client\<close>, \<^verbatim>\<open>_pubsub\<close> and \<^verbatim>\<open>_topic\<close> (\<open>pubsub\<close> holds the channels the
  \<^verbatim>\<open>PubSub\<close> object is subscribed to); \<open>log\<close> is the logger's output. The rest is the world
  around the object: \<open>offered\<close> lists the calls of \<^verbatim>\<open>self._client.publish\<close>, in order, each
  with the channel and the value exactly as the client library was given it, whether or
  not the library could send it; \<open>sent\<close> lists the messages the server took; \<open>network\<close>
  says for each coming round trip to the server whether it raises and what, an empty list
  meaning that all of them succeed; \<open>handed\<close> lists the arguments the user's callback was
  called with, and \<open>user\<close> is the callback's own state.
\<close>

record 'u redis =
  client :: "connection option"
  pubsub :: "string list option"
  topic :: string
  log :: "log_line list"
  offered :: "(string \<times> redis_value) list"
  sent :: "(string \<times> message) list"
  network :: "exn option list"
  handed :: "str list"
  user :: 'u

definition logger :: "log_line \<Rightarrow> 'u redis \<Rightarrow> 'u redis" where
  "logger l w = w\<lparr>log := log w @ [l]\<rparr>"

text \<open>\<^verbatim>\<open>RedisPubsub.__init__(topic)\<close>, in a world with the given network and user state.\<close>

definition RedisPubsub_init :: "redis_env \<Rightarrow> string option \<Rightarrow> exn option list \<Rightarrow> 'u \<Rightarrow> 'u redis" where
  "RedisPubsub_init env topic_arg net u =
     \<lparr>client = None, pubsub = None,
      topic = (if truthy topic_arg then the topic_arg else TOPIC_NAME env),
      log = [Debug ''loading ..'',
             Debug (''detected this config: HOST: '' @ HOST env @ '' PORT: '' @ PORT env
                    @ '' PASSWORD: ( ''
                    @ (if PASSWORD env \<noteq> [] then ''hidden'' else ''empty'') @ '' )'')],
      offered = [], sent = [], network = net, handed = [], user = u\<rparr>"

text \<open>One round trip to the server: it takes the next entry of \<open>network\<close>.\<close>

definition round_trip :: "'u redis \<Rightarrow> exn option \<times> 'u redis" where
  "round_trip w =
     (case network w of
        [] \<Rightarrow> (None, w)
      | r # rs \<Rightarrow> (r, w\<lparr>network := rs\<rparr>))"

text \<open>
  \<^verbatim>\<open>self._client.publish(channel, value)\<close> on a client that exists. The library encodes
  the value before it sends anything: text and bytes are encoded, and for a value of
  another type, such as the dictionary of an event, its encoder raises \<open>DataError\<close>. An
  encoded value goes to the server in one round trip.
\<close>

definition client_publish :: "string \<Rightarrow> redis_value \<Rightarrow> 'u redis \<Rightarrow> exn option \<times> 'u redis" where
  "client_publish channel v w =
     (let w1 = w\<lparr>offered := offered w @ [(channel, v)]\<rparr> in
      case v of
        EventDict ev \<Rightarrow> (Some DataError, w1)
      | Value m \<Rightarrow>
          (case round_trip w1 of
             (Some e, w2) \<Rightarrow> (Some e, w2)
           | (None, w2) \<Rightarrow> (None, w2\<lparr>sent := sent w2 @ [(channel, m)]\<rparr>)))"

definition transport_faults :: "exn list" where
  "transport_faults = [GaiError, RedisConnectionError]"

text \<open>
  \<^verbatim>\<open>RedisPubsub.open\<close>, decorated with the transport faults as expected faults: the
  client object is made, then pinged.
\<close>

definition redis_open_body :: "(unit, 'u redis) operation" where
  "redis_open_body w =
     (let w1 = logger (Debug ''connecting ..'') w;
          w2 = w1\<lparr>client := Some Live\<rparr>;
          w3 = logger (Debug ''pinging ..'') w2
      in case round_trip w3 of
           (Some e, w4) \<Rightarrow> Some (Inl e, w4)
         | (None, w4) \<Rightarrow> Some (Inr (), logger (Info ''ready.'') w4))"

definition RedisPubsub_open :: "nat \<Rightarrow> 'u redis \<Rightarrow> ((exn + unit option) \<times> 'u redis) option" where
  "RedisPubsub_open fuel = connexion fuel transport_faults [] redis_open_body"

text \<open>
  \<^verbatim>\<open>RedisPubsub.close\<close>, which is not decorated. \<^verbatim>\<open>self._client.close()\<close> is an attribute
  access on \<open>None\<close> while no client object was made.
\<close>

definition RedisPubsub_close :: "'u redis \<Rightarrow> (exn + unit) \<times> 'u redis" where
  "RedisPubsub_close w =
     (case client w of
        None \<Rightarrow> (Inl AttributeError, w)
      | Some c \<Rightarrow> (Inr (), logger (Debug ''terminated.'') (w\<lparr>client := Some Released\<rparr>)))"

text \<open>\<^verbatim>\<open>RedisPubsub.publish\<close>, decorated like \<^verbatim>\<open>open\<close>.\<close>

definition redis_publish_body :: "message \<Rightarrow> (unit, 'u redis) operation" where
  "redis_publish_body msg w =
     (case client w of
        None \<Rightarrow> Some (Inl AttributeError, w)
      | Some c \<Rightarrow>
          (case client_publish (topic w) (Value msg) w of
             (Some e, w') \<Rightarrow> Some (Inl e, w')
           | (None, w') \<Rightarrow> Some (Inr (), w')))"

definition RedisPubsub_publish :: "nat \<Rightarrow> message \<Rightarrow> 'u redis
    \<Rightarrow> ((exn + unit option) \<times> 'u redis) option" where
  "RedisPubsub_publish fuel msg = connexion fuel transport_faults [] (redis_publish_body msg)"

text \<open>
  The function \<^verbatim>\<open>exec_callback\<close> that \<^verbatim>\<open>RedisPubsub.consume\<close> defines. Its body tests the
  type of its argument \<^verbatim>\<open>message\<close> and reads the data of \<^verbatim>\<open>msg\<close>, the loop variable of the
  enclosing function; the loop calls it with \<^verbatim>\<open>msg\<close>, so both are the same event.
\<close>

definition redis_exec_callback_body :: "'u callback \<Rightarrow> event \<Rightarrow> event \<Rightarrow> (unit, 'u redis) operation" where
  "redis_exec_callback_body callback msg message w =
     (if ev_type message = ''message'' then
        (case ev_data msg of
           DataInt n \<Rightarrow> Some (Inl AttributeError, w)
         | DataBytes b \<Rightarrow>
             (case decode b of
                None \<Rightarrow> Some (Inl UnicodeDecodeError, w)
              | Some data \<Rightarrow>
                  (case callback data (user w) of
                     (None, u') \<Rightarrow> Some (Inr (), w\<lparr>handed := handed w @ [data], user := u'\<rparr>)
                   | (Some e, u') \<Rightarrow> Some (Inl e, w\<lparr>handed := handed w @ [data], user := u'\<rparr>))))
      else Some (Inr (), w))"

definition redis_exec_callback :: "nat \<Rightarrow> 'u callback \<Rightarrow> event \<Rightarrow> 'u redis
    \<Rightarrow> ((exn + unit option) \<times> 'u redis) option" where
  "redis_exec_callback fuel callback msg =
     connexion fuel transport_faults [] (redis_exec_callback_body callback msg msg)"

text \<open>
  The event loop of \<^verbatim>\<open>RedisPubsub.consume\<close>: the \<^verbatim>\<open>for\<close> over \<^verbatim>\<open>listen()\<close> with the inner
  \<^verbatim>\<open>try\<close>. The list holds what the iteration will do; the loop gives back what it has not
  come to. An exhausted iteration ends the loop. The handler \<^verbatim>\<open>except Exception\<close> logs
  the fault, calls \<^verbatim>\<open>publish\<close> with the event \<^verbatim>\<open>msg\<close> for the dead-letter topic if one was
  given, and raises the fault again; a fault of the dead-letter \<^verbatim>\<open>publish\<close> call leaves the
  handler in its place.
\<close>

fun event_loop :: "nat \<Rightarrow> 'u callback \<Rightarrow> string option \<Rightarrow> listen_item list \<Rightarrow> 'u redis
    \<Rightarrow> ((exn + unit) \<times> listen_item list \<times> 'u redis) option" where
  "event_loop fuel callback deadLetter [] w = Some (Inr (), [], w)"
| "event_loop fuel callback deadLetter (ListenRaises e # rest) w = Some (Inl e, rest, w)"
| "event_loop fuel callback deadLetter (Yields msg # rest) w =
     (case redis_exec_callback fuel callback msg w of
        None \<Rightarrow> None
      | Some (Inr r, w1) \<Rightarrow> event_loop fuel callback deadLetter rest w1
      | Some (Inl err, w1) \<Rightarrow>
          if is_Exception err then
            (let w2 = logger (Error err) w1 in
             if truthy deadLetter then
               (case client_publish (the deadLetter) (EventDict msg) w2 of
                  (Some e, w3) \<Rightarrow> Some (Inl e, rest, w3)
                | (None, w3) \<Rightarrow> Some (Inl err, rest, w3))
             else Some (Inl err, rest, w2))
          else Some (Inl err, rest, w1))"

text \<open>
  \<^verbatim>\<open>RedisPubsub.consume\<close>. The \<^verbatim>\<open>PubSub\<close> object is made and subscribed (one round trip)
  before the outer \<^verbatim>\<open>try\<close> is entered; the outer \<^verbatim>\<open>try\<close> turns a \<open>KeyboardInterrupt\<close> that
  leaves the loop into a log line and a normal return. The state of the decorated method
  is the pair of what \<^verbatim>\<open>listen()\<close> still has to deliver and the state of the object.
\<close>

definition redis_consume_body :: "nat \<Rightarrow> 'u callback \<Rightarrow> string option
    \<Rightarrow> (unit, listen_item list \<times> 'u redis) operation" where
  "redis_consume_body fuel callback deadLetter st =
     (case st of (items, w) \<Rightarrow>
        (let w1 = logger (Debug ''consuming ..'') w in
         case client w1 of
           None \<Rightarrow> Some (Inl AttributeError, (items, w1))
         | Some c \<Rightarrow>
             (case round_trip (w1\<lparr>pubsub := Some []\<rparr>) of
                (Some e, w2) \<Rightarrow> Some (Inl e, (items, w2))
              | (None, w2) \<Rightarrow>
                  (case event_loop fuel callback deadLetter items (w2\<lparr>pubsub := Some [topic w2]\<rparr>) of
                     None \<Rightarrow> None
                   | Some (Inr r, rest, w3) \<Rightarrow> Some (Inr (), (rest, w3))
                   | Some (Inl e, rest, w3) \<Rightarrow>
                       if e = KeyboardInterrupt
                       then Some (Inr (), (rest, logger (Info ''graceful exit'') w3))
                       else Some (Inl e, (rest, w3))))))"

definition RedisPubsub_consume :: "nat \<Rightarrow> 'u callback \<Rightarrow> string option
    \<Rightarrow> listen_item list \<times> 'u redis
    \<Rightarrow> ((exn + unit option) \<times> listen_item list \<times> 'u redis) option" where
  "RedisPubsub_consume fuel callback deadLetter =
     connexion fuel transport_faults [] (redis_consume_body fuel callback deadLetter)"

section \<open>The cloud client\<close>

text \<open>
  The part of the environment \<^verbatim>\<open>GCPPubSub\<close> reads: the attributes of \<^verbatim>\<open>GCPEnv\<close> (a
  class defined outside \<^verbatim>\<open>pubsub.py\<close>, so its values are taken as given), and the
  process environment variable \<^verbatim>\<open>GOOGLE_PROJECT\<close> that \<^verbatim>\<open>consume\<close> looks up in
  \<^verbatim>\<open>os.environ\<close> (a lookup that raises \<open>KeyError\<close> when the variable is not set).
\<close>

record gcp_env =
  GOOGLE_PROJECT :: string
  GOOGLE_APPLICATION_CREDENTIALS :: string
  GCP_TOPIC_NAME :: string
  SUBSCRIPTION_NAME :: string
  environ_GOOGLE_PROJECT :: "string option"

text \<open>A message as the subscriber library delivers it.\<close>

record pubsub_message =
  message_id :: nat
  data :: bytes

text \<open>
  What the streaming pull does next, as seen from \<^verbatim>\<open>future.result()\<close>: the library delivers
  a message to the wrapper callback, or the wait itself raises (the stream breaks, or the
  operator interrupts the waiting thread).
\<close>

datatype stream_item = Delivers pubsub_message | ResultRaises exn

text \<open>
  What happens to the next call of the service's interface: it is served, it fails with an
  injected fault, or a rival client creates the resource the call names just before the
  call is served.
\<close>

datatype api_event = Proceed | Failing exn | Rival

text \<open>
  The state a \<^verbatim>\<open>GCPPubSub\<close> object works on. \<open>publisher_client\<close> says whether the attribute
  \<^verbatim>\<open>_publisher_client\<close> holds a client, \<open>topic_path\<close> and \<open>gcp_topic\<close> are the attributes
  \<^verbatim>\<open>_topic_path\<close> and \<^verbatim>\<open>_topic\<close>, \<open>env\<close> is \<^verbatim>\<open>_env\<close> and \<open>glog\<close> the logger's output. The
  rest is the world around the object: the topics and the subscriptions (each with the
  topic it is bound to) that exist in the service, a resource standing in its list once
  per creation; \<open>outbox\<close>, the messages the service accepted, each with its topic;
  \<open>acked\<close>, the identifiers of the messages on which \<^verbatim>\<open>ack()\<close> was called; \<open>cancelled\<close>, whether
  \<^verbatim>\<open>future.cancel()\<close> was called; \<open>api\<close>, what happens to the coming calls of the service,
  an empty list meaning that all of them are served; and, as for the other client, the
  arguments the user's callback was called with and the callback's own state.
\<close>

record 'u gcp =
  env :: gcp_env
  gcp_topic :: string
  publisher_client :: bool
  topic_path :: "string option"
  glog :: "log_line list"
  topics :: "string list"
  subscriptions :: "(string \<times> string option) list"
  outbox :: "(string \<times> bytes) list"
  acked :: "nat list"
  cancelled :: bool
  api :: "api_event list"
  ghanded :: "str list"
  guser :: 'u

definition glogger :: "log_line \<Rightarrow> 'u gcp \<Rightarrow> 'u gcp" where
  "glogger l w = w\<lparr>glog := glog w @ [l]\<rparr>"

text \<open>How an f-string prints an attribute that may be \<open>None\<close>.\<close>

fun shown :: "string option \<Rightarrow> string" where
  "shown None = ''None''"
| "shown (Some t) = t"

text \<open>
  \<^verbatim>\<open>GCPPubSub.__init__(topic)\<close>, in a world with the given service state, coming service
  events and user state.
\<close>

definition GCPPubSub_init :: "gcp_env \<Rightarrow> string option \<Rightarrow> string list
    \<Rightarrow> (string \<times> string option) list \<Rightarrow> api_event list \<Rightarrow> 'u \<Rightarrow> 'u gcp" where
  "GCPPubSub_init e topic_arg ts ss events u =
     \<lparr>env = e,
      gcp_topic = (if truthy topic_arg then the topic_arg else GCP_TOPIC_NAME e),
      publisher_client = False, topic_path = None,
      glog = [Debug ''loading ..'',
              Debug (''detected this config: - PROJECT: '' @ GOOGLE_PROJECT e @ '' - TOPIC: ''
                     @ (if truthy topic_arg then the topic_arg else GCP_TOPIC_NAME e)
                     @ '' - CREDENTIALS: ( ''
                     @ (if GOOGLE_APPLICATION_CREDENTIALS e \<noteq> [] then ''hidden'' else ''empty'')
                     @ '' )'')],
      topics = ts, subscriptions = ss, outbox = [], acked = [], cancelled = False,
      api = events, ghanded = [], guser = u\<rparr>"

definition next_event :: "'u gcp \<Rightarrow> api_event \<times> 'u gcp" where
  "next_event w =
     (case api w of
        [] \<Rightarrow> (Proceed, w)
      | a # rest \<Rightarrow> (a, w\<lparr>api := rest\<rparr>))"

text \<open>
  The four calls of the service that provisioning uses. A topic or a subscription is found
  when its name is in the service's list; a creation fails with \<open>AlreadyExists\<close> when the
  name is there already. A path that is \<open>None\<close> (which \<^verbatim>\<open>open\<close> rules out, as it sets the
  client and the path together) is answered with \<open>InvalidArgument\<close>.
\<close>

definition add_topic :: "string \<Rightarrow> 'u gcp \<Rightarrow> 'u gcp" where
  "add_topic p w = (if p \<in> set (topics w) then w else w\<lparr>topics := topics w @ [p]\<rparr>)"

definition add_subscription :: "string \<Rightarrow> string option \<Rightarrow> 'u gcp \<Rightarrow> 'u gcp" where
  "add_subscription p t w =
     (if p \<in> fst ` set (subscriptions w) then w
      else w\<lparr>subscriptions := subscriptions w @ [(p, t)]\<rparr>)"

definition get_topic :: "string option \<Rightarrow> 'u gcp \<Rightarrow> (exn + unit) \<times> 'u gcp" where
  "get_topic path w =
     (case next_event w of
        (Failing e, w1) \<Rightarrow> (Inl e, w1)
      | (ev, w1) \<Rightarrow>
          (case path of
             None \<Rightarrow> (Inl InvalidArgument, w1)
           | Some p \<Rightarrow>
               (let w2 = (if ev = Rival then add_topic p w1 else w1)
                in if p \<in> set (topics w2) then (Inr (), w2) else (Inl NotFound, w2))))"

definition create_topic :: "string option \<Rightarrow> 'u gcp \<Rightarrow> (exn + unit) \<times> 'u gcp" where
  "create_topic path w =
     (case next_event w of
        (Failing e, w1) \<Rightarrow> (Inl e, w1)
      | (ev, w1) \<Rightarrow>
          (case path of
             None \<Rightarrow> (Inl InvalidArgument, w1)
           | Some p \<Rightarrow>
               (let w2 = (if ev = Rival then add_topic p w1 else w1)
                in if p \<in> set (topics w2) then (Inl AlreadyExists, w2)
                   else (Inr (), w2\<lparr>topics := topics w2 @ [p]\<rparr>))))"

definition get_subscription :: "string \<Rightarrow> 'u gcp \<Rightarrow> (exn + string option) \<times> 'u gcp" where
  "get_subscription p w =
     (case next_event w of
        (Failing e, w1) \<Rightarrow> (Inl e, w1)
      | (ev, w1) \<Rightarrow>
          (let w2 = (if ev = Rival then add_subscription p (topic_path w1) w1 else w1)
           in case map_of (subscriptions w2) p of
                None \<Rightarrow> (Inl NotFound, w2)
              | Some t \<Rightarrow> (Inr t, w2)))"

definition create_subscription :: "string \<Rightarrow> string option \<Rightarrow> 'u gcp \<Rightarrow> (exn + unit) \<times> 'u gcp" where
  "create_subscription p t w =
     (case next_event w of
        (Failing e, w1) \<Rightarrow> (Inl e, w1)
      | (ev, w1) \<Rightarrow>
          (let w2 = (if ev = Rival then add_subscription p t w1 else w1)
           in if p \<in> fst ` set (subscriptions w2) then (Inl AlreadyExists, w2)
              else (Inr (), w2\<lparr>subscriptions := subscriptions w2 @ [(p, t)]\<rparr>)))"

text \<open>\<^verbatim>\<open>GCPPubSub.check_topic\<close>: the body, and the method as decorated.\<close>

definition check_topic_body :: "(unit, 'u gcp) operation" where
  "check_topic_body w =
     (let w1 = glogger (Debug (''checking  .. topic='' @ shown (topic_path w))) w in
      if \<not> publisher_client w1 then Some (Inl AttributeError, w1)
      else
        (case get_topic (topic_path w1) w1 of
           (Inr r, w2) \<Rightarrow> Some (Inr (), w2)
         | (Inl e, w2) \<Rightarrow>
             if e = NotFound then
               (let w3 = glogger (Info (''creating new topic .. '' @ shown (topic_path w2))) w2
                in case create_topic (topic_path w3) w3 of
                     (Inr r, w4) \<Rightarrow> Some (Inr (), w4)
                   | (Inl e', w4) \<Rightarrow> Some (Inl e', w4))
             else Some (Inl e, w2)))"

definition check_topic :: "nat \<Rightarrow> 'u gcp \<Rightarrow> ((exn + unit option) \<times> 'u gcp) option" where
  "check_topic fuel = connexion fuel [ServiceUnavailable] [AlreadyExists] check_topic_body"

text \<open>
  \<^verbatim>\<open>GCPPubSub.check_subscription\<close>. The call of \<^verbatim>\<open>check_topic\<close> stands before the \<^verbatim>\<open>try\<close>;
  a fault of \<^verbatim>\<open>create_subscription\<close> is raised inside a handler and so is not logged by
  the last handler.
\<close>

definition check_subscription_body :: "nat \<Rightarrow> string \<Rightarrow> (unit, 'u gcp) operation" where
  "check_subscription_body fuel subscription w =
     (case check_topic fuel w of
        None \<Rightarrow> None
      | Some (Inl e, w1) \<Rightarrow> Some (Inl e, w1)
      | Some (Inr r, w1) \<Rightarrow>
          (let w2 = glogger (Debug (''checking subscription .. '' @ subscription)) w1 in
           case get_subscription subscription w2 of
             (Inr t, w3) \<Rightarrow>
               Some (Inr (), glogger (Debug (''name='' @ subscription @ '', topic='' @ shown t)) w3)
           | (Inl e, w3) \<Rightarrow>
               if e = NotFound \<or> e = InvalidArgument then
                 (let w4 = glogger (Info (''registering new subscription .. '' @ subscription)) w3
                  in case create_subscription subscription (topic_path w4) w4 of
                       (Inr r', w5) \<Rightarrow> Some (Inr (), w5)
                     | (Inl e', w5) \<Rightarrow> Some (Inl e', w5))
               else if is_Exception e then Some (Inl e, glogger (Error e) w3)
               else Some (Inl e, w3)))"

definition check_subscription :: "nat \<Rightarrow> string \<Rightarrow> 'u gcp
    \<Rightarrow> ((exn + unit option) \<times> 'u gcp) option" where
  "check_subscription fuel subscription =
     connexion fuel [ServiceUnavailable] [AlreadyExists] (check_subscription_body fuel subscription)"

text \<open>\<^verbatim>\<open>GCPPubSub.open\<close> (not decorated) and \<^verbatim>\<open>GCPPubSub.close\<close>.\<close>

definition GCPPubSub_open :: "nat \<Rightarrow> 'u gcp \<Rightarrow> ((exn + unit) \<times> 'u gcp) option" where
  "GCPPubSub_open fuel w =
     (let w1 = w\<lparr>publisher_client := True\<rparr>;
          w2 = w1\<lparr>topic_path :=
                 Some (''projects/'' @ GOOGLE_PROJECT (env w1) @ ''/topics/'' @ gcp_topic w1)\<rparr>
      in case check_topic fuel w2 of
           None \<Rightarrow> None
         | Some (Inl e, w3) \<Rightarrow> Some (Inl e, w3)
         | Some (Inr r, w3) \<Rightarrow> Some (Inr (), glogger (Info ''ready.'') w3))"

definition GCPPubSub_close :: "'u gcp \<Rightarrow> (exn + unit) \<times> 'u gcp" where
  "GCPPubSub_close w = (Inr (), glogger (Debug ''terminated.'') w)"

text \<open>
  \<^verbatim>\<open>GCPPubSub.publish\<close>. The bytes to send are \<^verbatim>\<open>msg.encode() if isinstance(msg, str) else msg\<close>;
  the call then waits for the result of the send, which is the identifier the service gave
  the message (here its position in \<open>outbox\<close>).
\<close>

fun payload :: "message \<Rightarrow> bytes option" where
  "payload (Text t) = encode t"
| "payload (Bytes b) = Some b"

definition gcp_publish_body :: "message \<Rightarrow> (nat, 'u gcp) operation" where
  "gcp_publish_body msg w =
     (if \<not> publisher_client w then Some (Inl AttributeError, w)
      else
        (case payload msg of
           None \<Rightarrow> Some (Inl UnicodeEncodeError, w)
         | Some b \<Rightarrow>
             (case next_event w of
                (Failing e, w1) \<Rightarrow> Some (Inl e, w1)
              | (ev, w1) \<Rightarrow>
                  Some (Inr (length (outbox w1)),
                        w1\<lparr>outbox := outbox w1 @ [(shown (topic_path w1), b)]\<rparr>))))"

definition GCPPubSub_publish :: "nat \<Rightarrow> message \<Rightarrow> 'u gcp \<Rightarrow> ((exn + nat option) \<times> 'u gcp) option" where
  "GCPPubSub_publish fuel msg =
     connexion fuel [ServiceUnavailable] [AlreadyExists] (gcp_publish_body msg)"

text \<open>
  The function \<^verbatim>\<open>exec_callback\<close> that \<^verbatim>\<open>GCPPubSub.consume\<close> defines: the body, and the
  function as decorated. The \<^verbatim>\<open>try\<close> covers the decoding, the user's callback and the
  acknowledgement; its handler catches an \<open>Exception\<close>, logs it and raises a
  \<open>MessageProcessingException\<close>.
\<close>

definition gcp_exec_callback_body :: "'u callback \<Rightarrow> pubsub_message \<Rightarrow> (unit, 'u gcp) operation" where
  "gcp_exec_callback_body callback message w =
     (case decode (data message) of
        None \<Rightarrow> Some (Inl MessageProcessingException, glogger (Error UnicodeDecodeError) w)
      | Some s \<Rightarrow>
          (case callback s (guser w) of
             (None, u') \<Rightarrow>
               Some (Inr (), w\<lparr>ghanded := ghanded w @ [s], guser := u',
                                acked := acked w @ [message_id message]\<rparr>)
           | (Some e, u') \<Rightarrow>
               if is_Exception e then
                 Some (Inl MessageProcessingException,
                       glogger (Error e) (w\<lparr>ghanded := ghanded w @ [s], guser := u'\<rparr>))
               else Some (Inl e, w\<lparr>ghanded := ghanded w @ [s], guser := u'\<rparr>)))"

definition gcp_exec_callback :: "nat \<Rightarrow> 'u callback \<Rightarrow> pubsub_message \<Rightarrow> 'u gcp
    \<Rightarrow> ((exn + unit option) \<times> 'u gcp) option" where
  "gcp_exec_callback fuel callback message =
     connexion fuel [ServiceUnavailable, MessageProcessingException, NotFound] []
       (gcp_exec_callback_body callback message)"

text \<open>
  The streaming pull between \<^verbatim>\<open>subscriber.subscribe\<close> and the end of \<^verbatim>\<open>future.result()\<close>.
  The library runs the wrapper callback on its own threads; here the deliveries are taken
  one after the other. A fault that leaves the wrapper callback is set on the future by the
  library, so the wait raises it; a stream that closes makes the wait return.
\<close>

fun streaming_pull :: "nat \<Rightarrow> 'u callback \<Rightarrow> stream_item list \<Rightarrow> 'u gcp
    \<Rightarrow> ((exn + unit) \<times> stream_item list \<times> 'u gcp) option" where
  "streaming_pull fuel callback [] w = Some (Inr (), [], w)"
| "streaming_pull fuel callback (ResultRaises e # rest) w = Some (Inl e, rest, w)"
| "streaming_pull fuel callback (Delivers m # rest) w =
     (case gcp_exec_callback fuel callback m w of
        None \<Rightarrow> None
      | Some (Inr r, w1) \<Rightarrow> streaming_pull fuel callback rest w1
      | Some (Inl e, w1) \<Rightarrow> Some (Inl e, rest, w1))"

text \<open>
  \<^verbatim>\<open>GCPPubSub.consume\<close>: the body, and the method as decorated. The subscription is
  provisioned and the streaming pull started before the \<^verbatim>\<open>try\<close> is entered; the \<^verbatim>\<open>try\<close>
  around \<^verbatim>\<open>future.result()\<close> turns a \<open>KeyboardInterrupt\<close> into \<^verbatim>\<open>future.cancel()\<close> and a normal
  return.
\<close>

definition gcp_consume_body :: "nat \<Rightarrow> 'u callback \<Rightarrow> string option \<Rightarrow> string option
    \<Rightarrow> (unit, stream_item list \<times> 'u gcp) operation" where
  "gcp_consume_body fuel callback subscription deadLetter st =
     (case st of (items, w) \<Rightarrow>
        (let w1 = glogger (Debug ''consuming ..'') w;
             subscription_name =
               (if truthy subscription then the subscription else SUBSCRIPTION_NAME (env w1))
         in case environ_GOOGLE_PROJECT (env w1) of
              None \<Rightarrow> Some (Inl KeyError, (items, w1))
            | Some project \<Rightarrow>
                (case check_subscription fuel
                        (''projects/'' @ project @ ''/subscriptions/'' @ subscription_name) w1 of
                   None \<Rightarrow> None
                 | Some (Inl e, w2) \<Rightarrow> Some (Inl e, (items, w2))
                 | Some (Inr r, w2) \<Rightarrow>
                     (case streaming_pull fuel callback items w2 of
                        None \<Rightarrow> None
                      | Some (Inr r', rest, w3) \<Rightarrow> Some (Inr (), (rest, w3))
                      | Some (Inl e, rest, w3) \<Rightarrow>
                          if e = KeyboardInterrupt
                          then Some (Inr (), (rest, w3\<lparr>cancelled := True\<rparr>))
                          else Some (Inl e, (rest, w3))))))"

definition GCPPubSub_consume :: "nat \<Rightarrow> 'u callback \<Rightarrow> string option \<Rightarrow> string option
    \<Rightarrow> stream_item list \<times> 'u gcp
    \<Rightarrow> ((exn + unit option) \<times> stream_item list \<times> 'u gcp) option" where
  "GCPPubSub_consume fuel callback subscription deadLetter =
     connexion fuel [ServiceUnavailable, RetryError] [AlreadyExists, NotFound, TimeoutError]
       (gcp_consume_body fuel callback subscription deadLetter)"

section \<open>Concrete scenarios\<close>

text \<open>
  Inputs on which the theorems below are run: a subscription confirmation and a message
  event on the channel \<open>t\<close>, an opened key-value-store client whose callback state is a
  counter, and three callbacks: one that always returns, one that always raises an
  exception of the user's, and one that raises a connection error on its first call only.
\<close>

definition confirmation :: event where
  "confirmation = \<lparr>ev_type = ''subscribe'', ev_channel = ''t'', ev_data = DataInt 1\<rparr>"

definition greeting :: event where
  "greeting = \<lparr>ev_type = ''message'', ev_channel = ''t'', ev_data = DataBytes [104, 105]\<rparr>"

definition opened_redis :: "nat redis" where
  "opened_redis =
     \<lparr>client = Some Live, pubsub = None, topic = ''t'', log = [], offered = [], sent = [],
      network = [], handed = [], user = 0\<rparr>"

definition counting :: "nat callback" where
  "counting s n = (None, Suc n)"

definition failing :: "nat callback" where
  "failing s n = (Some (OtherError ''boom''), Suc n)"

definition flaky :: "nat callback" where
  "flaky s n = (if n = 0 then Some RedisConnectionError else None, Suc n)"

text \<open>
  A stretch of the Unicode table beyond the code points that \<open>upper_point\<close> writes out:
  the small letters of Latin-1 go to their capitals, the micro sign to the Greek capital
  mu, the y with diaeresis to its capital at U+0178; every other code point is kept.
\<close>

definition latin1 :: "nat \<Rightarrow> str" where
  "latin1 c =
     (if 224 \<le> c \<and> c \<le> 254 \<and> c \<noteq> 247 then [c - 32]
      else if c = 181 then [924]
      else if c = 255 then [376]
      else [c])"

text \<open>
  The same for the cloud client: an environment, an opened client on a service without
  topics and subscriptions, and a delivered message.
\<close>

definition sample_env :: gcp_env where
  "sample_env =
     \<lparr>GOOGLE_PROJECT = ''p'', GOOGLE_APPLICATION_CREDENTIALS = ''c'', GCP_TOPIC_NAME = ''t'',
      SUBSCRIPTION_NAME = ''s'', environ_GOOGLE_PROJECT = Some ''p''\<rparr>"

definition opened_gcp :: "nat gcp" where
  "opened_gcp =
     \<lparr>env = sample_env, gcp_topic = ''t'', publisher_client = True,
      topic_path = Some ''projects/p/topics/t'', glog = [], topics = [], subscriptions = [],
      outbox = [], acked = [], cancelled = False, api = [], ghanded = [], guser = 0\<rparr>"

definition delivery :: pubsub_message where
  "delivery = \<lparr>message_id = 7, data = [104, 105]\<rparr>"

section \<open>A service that answers\<close>

text \<open>
  The setting in which provisioning is repeated: the client was opened on the topic path
  \<open>p\<close>, no fault is injected into the coming calls of the service (a rival may still create
  a resource at any of them), and the service holds every topic and every subscription
  name once.
\<close>

definition ready :: "string \<Rightarrow> 'u gcp \<Rightarrow> bool" where
  "ready p w \<longleftrightarrow> publisher_client w \<and> topic_path w = Some p \<and> (\<forall>e. Failing e \<notin> set (api w))
     \<and> distinct (topics w) \<and> distinct (map fst (subscriptions w))"

section \<open>Properties of the retry policy\<close>

text \<open>
  C1. Whatever the wrapped operation and the two fault sets are: when the operation raises
  a fault of the noisy set, the wrapper ends as a success without a result and with the
  state the single call left, so the fault is not raised again; when it raises a fault
  that is in neither set, the wrapper raises that fault, again with the state the single
  call left, so the operation was not run a second time.
\<close>

theorem connexion_noisy_suppressed_other_raised:
  assumes "operation s = Some (Inl e, s')"
  shows "(e \<in> set noisy_errors \<longrightarrow>
            connexion (Suc fuel) expected_errors noisy_errors operation s = Some (Inr None, s'))
       \<and> (e \<notin> set noisy_errors \<and> e \<notin> set expected_errors \<longrightarrow>
            connexion (Suc fuel) expected_errors noisy_errors operation s = Some (Inl e, s'))"
  using assms by simp

text \<open>
  The theorem at work. An operation that counts its calls was called once in both cases.
  In \<^verbatim>\<open>check_topic\<close>, a rival that creates the topic between the lookup and the creation
  makes \<^verbatim>\<open>create_topic\<close> raise \<open>AlreadyExists\<close>, which the wrapper suppresses; in
  \<^verbatim>\<open>RedisPubsub.open\<close>, a ping that raises something else than a transport fault is raised
  to the caller.
\<close>

theorem connexion_noisy_suppressed_other_raised_witness:
  "connexion (Suc 3) [ServiceUnavailable] [AlreadyExists]
       (\<lambda>n. Some (Inl AlreadyExists :: exn + unit, Suc n)) (0::nat) = Some (Inr None, 1)
   \<and> connexion (Suc 3) [ServiceUnavailable] [AlreadyExists]
       (\<lambda>n. Some (Inl KeyError :: exn + unit, Suc n)) (0::nat) = Some (Inl KeyError, 1)
   \<and> map_option fst (connexion (Suc 0) [ServiceUnavailable] [AlreadyExists] check_topic_body
       (opened_gcp\<lparr>api := [Proceed, Rival]\<rparr>)) = Some (Inr None)
   \<and> map_option fst (connexion (Suc 0) transport_faults [] redis_open_body
       (opened_redis\<lparr>network := [Some (OtherError ''auth'')]\<rparr>))
       = Some (Inl (OtherError ''auth''))"
proof -
  have t: "\<exists>s'. check_topic_body (opened_gcp\<lparr>api := [Proceed, Rival]\<rparr>)
      = Some (Inl AlreadyExists, s')"
    by (simp add: check_topic_body_def opened_gcp_def glogger_def get_topic_def
        create_topic_def next_event_def add_topic_def Let_def)
  then obtain s1 where s1: "check_topic_body (opened_gcp\<lparr>api := [Proceed, Rival]\<rparr>)
      = Some (Inl AlreadyExists, s1)" by blast
  have "\<exists>s'. redis_open_body (opened_redis\<lparr>network := [Some (OtherError ''auth'')]\<rparr>)
      = Some (Inl (OtherError ''auth''), s')"
    by (simp add: redis_open_body_def opened_redis_def logger_def round_trip_def Let_def)
  then obtain s2 where s2: "redis_open_body (opened_redis\<lparr>network := [Some (OtherError ''auth'')]\<rparr>)
      = Some (Inl (OtherError ''auth''), s2)" by blast
  show ?thesis
    using connexion_noisy_suppressed_other_raised
      [where operation = "\<lambda>n. Some (Inl AlreadyExists :: exn + unit, Suc n)" and s = "0::nat"
         and e = AlreadyExists and s' = 1 and noisy_errors = "[AlreadyExists]"
         and expected_errors = "[ServiceUnavailable]" and fuel = 3]
    connexion_noisy_suppressed_other_raised
      [where operation = "\<lambda>n. Some (Inl KeyError :: exn + unit, Suc n)" and s = "0::nat"
         and e = KeyError and s' = 1 and noisy_errors = "[AlreadyExists]"
         and expected_errors = "[ServiceUnavailable]" and fuel = 3]
    connexion_noisy_suppressed_other_raised
      [where operation = check_topic_body and s = "opened_gcp\<lparr>api := [Proceed, Rival]\<rparr>"
         and e = AlreadyExists and s' = s1 and noisy_errors = "[AlreadyExists]"
         and expected_errors = "[ServiceUnavailable]" and fuel = 0]
    connexion_noisy_suppressed_other_raised
      [where operation = redis_open_body
         and s = "opened_redis\<lparr>network := [Some (OtherError ''auth'')]\<rparr>"
         and e = "OtherError ''auth''" and s' = s2 and noisy_errors = "[]"
         and expected_errors = transport_faults and fuel = 0]
    s1 s2
    by (simp add: transport_faults_def)
qed

text \<open>
  The other two cases of the contract: a result is returned unchanged, and an expected
  fault makes the wrapper run the operation again on the state the failed call left.
\<close>

lemma connexion_success:
  "operation s = Some (Inr r, s') \<Longrightarrow>
     connexion (Suc fuel) expected_errors noisy_errors operation s = Some (Inr (Some r), s')"
  by simp

lemma connexion_retry:
  "operation s = Some (Inl e, s') \<Longrightarrow> e \<notin> set noisy_errors \<Longrightarrow> e \<in> set expected_errors \<Longrightarrow>
     connexion (Suc fuel) expected_errors noisy_errors operation s
       = connexion fuel expected_errors noisy_errors operation s'"
  by simp

text \<open>What every call of the operation keeps, the wrapper keeps.\<close>

lemma connexion_keeps:
  assumes "\<And>s r s'. operation s = Some (r, s') \<Longrightarrow> f s' = f s"
    and "connexion fuel expected_errors noisy_errors operation s = Some (r, s')"
  shows "f s' = f s"
  using assms(2)
proof (induction fuel arbitrary: s)
  case 0
  then show ?case by simp
next
  case (Suc fuel)
  show ?case
  proof (cases "operation s")
    case None
    then show ?thesis using Suc.prems by simp
  next
    case (Some a)
    obtain r1 s1 where a: "a = (r1, s1)" by (cases a)
    have k: "f s1 = f s" using assms(1) Some a by simp
    show ?thesis
    proof (cases r1)
      case (Inr x)
      then show ?thesis using Suc.prems Some a k by auto
    next
      case (Inl e)
      then show ?thesis using Suc.prems Some a k Suc.IH [of s1]
        by (auto split: if_splits)
    qed
  qed
qed

section \<open>Properties of the client factory\<close>

text \<open>
  A plain string is the joined uppercase of a string exactly when each code point of the
  string has a single code point as its uppercase and these make up the plain string.
\<close>

lemma plain_ascii: "plain t \<Longrightarrow> x \<in> set t \<Longrightarrow> x < 128"
  by (induction t) auto

lemma upper_point_not_Nil:
  assumes "\<And>c. 128 \<le> c \<Longrightarrow> \<exists>x\<in>set (beyond c). 128 \<le> x"
  shows "upper_point beyond c \<noteq> []"
proof (cases "128 \<le> c")
  case True
  then obtain x where "x \<in> set (beyond c)" using assms by blast
  then have "beyond c \<noteq> []" by auto
  then show ?thesis by (simp add: upper_point_def)
next
  case False
  then show ?thesis by (simp add: upper_point_def)
qed

lemma upper_point_far: "128 \<le> c \<Longrightarrow> \<not> listed c \<Longrightarrow> upper_point beyond c = beyond c"
  by (simp add: upper_point_def listed_def)

lemma upper_point_near:
  "c < 128 \<or> listed c \<Longrightarrow>
     (\<exists>y. upper_point beyond c = [y]) \<or> upper_point beyond c = [83, 83]
     \<or> upper_point beyond c = [83, 84] \<or> (\<exists>r. upper_point beyond c = 70 # r)"
  unfolding listed_def
  by (elim disjE) (simp_all add: upper_point_def)

lemma upper_Cons_plain:
  assumes beyond: "\<And>c. 128 \<le> c \<Longrightarrow> \<exists>x\<in>set (beyond c). 128 \<le> x"
    and "plain (x # t)"
  shows "upper_point beyond c @ u = x # t \<longleftrightarrow> upper_point beyond c = [x] \<and> u = t"
proof -
  have x: "x < 128" "x \<noteq> 70" "x = 83 \<longrightarrow> (case t of [] \<Rightarrow> True | y # ys \<Rightarrow> y \<noteq> 83 \<and> y \<noteq> 84)"
    and t: "\<forall>z\<in>set (x # t). z < 128"
    using assms(2) plain_ascii [OF assms(2)] by auto
  show ?thesis
  proof (cases "c < 128 \<or> listed c")
    case True
    from upper_point_near [OF this, of beyond] show ?thesis
    proof (elim disjE exE)
      fix y assume "upper_point beyond c = [y]"
      then show ?thesis by auto
    next
      assume "upper_point beyond c = [83, 83]"
      then show ?thesis using x by (auto split: list.splits)
    next
      assume "upper_point beyond c = [83, 84]"
      then show ?thesis using x by (auto split: list.splits)
    next
      fix r assume "upper_point beyond c = 70 # r"
      then show ?thesis using x by auto
    qed
  next
    case False
    then have far: "upper_point beyond c = beyond c" "128 \<le> c"
      using upper_point_far [of c beyond] by auto
    then obtain z where z: "z \<in> set (beyond c)" "128 \<le> z" using beyond by blast
    have "upper_point beyond c @ u \<noteq> x # t"
    proof
      assume "upper_point beyond c @ u = x # t"
      then have "z \<in> set (x # t)" using z far by (metis Un_iff set_append)
      then show False using t z by auto
    qed
    moreover have "upper_point beyond c \<noteq> [x]"
      using z far x by auto
    ultimately show ?thesis by simp
  qed
qed

lemma upper_plain:
  assumes beyond: "\<And>c. 128 \<le> c \<Longrightarrow> \<exists>x\<in>set (beyond c). 128 \<le> x"
  shows "plain t \<Longrightarrow> upper beyond s = t \<longleftrightarrow> list_all2 (\<lambda>c x. upper_point beyond c = [x]) s t"
proof (induction s arbitrary: t)
  case Nil
  then show ?case by (auto simp: upper_def)
next
  case (Cons c s)
  show ?case
  proof (cases t)
    case Nil
    then show ?thesis
      using upper_point_not_Nil [where beyond = beyond and c = c] beyond
      by (simp add: upper_def)
  next
    case t: (Cons x t')
    then have p: "plain (x # t')" "plain t'" using Cons.prems by auto
    have "upper beyond (c # s) = x # t' \<longleftrightarrow> upper_point beyond c = [x] \<and> upper beyond s = t'"
      using upper_Cons_plain [where beyond = beyond and x = x and t = t' and c = c
          and u = "upper beyond s"] beyond p(1)
      by (simp add: upper_def)
    then show ?thesis using Cons.IH [OF p(2)] t by simp
  qed
qed

lemma upper_point_single:
  assumes beyond: "\<And>c. 128 \<le> c \<Longrightarrow> \<exists>x\<in>set (beyond c). 128 \<le> x"
    and d: "(97 \<le> d \<and> d \<le> 122) \<or> d = 45"
  shows "upper_point beyond c = [if 97 \<le> d \<and> d \<le> 122 then d - 32 else d] \<longleftrightarrow> spells c d"
proof (cases "c < 128 \<or> listed c")
  case False
  then have far: "upper_point beyond c = beyond c" "128 \<le> c"
    using upper_point_far [of c beyond] by auto
  then obtain z where z: "z \<in> set (beyond c)" "128 \<le> z" using beyond by blast
  have "c \<noteq> 305" "c \<noteq> 383" using False by (auto simp: listed_def)
  then have "\<not> spells c d" using far d by (auto simp: spells_def same_letter_def)
  moreover have "upper_point beyond c \<noteq> [if 97 \<le> d \<and> d \<le> 122 then d - 32 else d]"
    using z far d by auto
  ultimately show ?thesis by simp
next
  case True
  then show ?thesis using d
    unfolding upper_point_def spells_def same_letter_def listed_def
    by (elim disjE conjE) (simp_all, arith+)
qed

lemma list_all2_cong_right:
  "(\<And>c d. d \<in> set ds \<Longrightarrow> P c d = Q c d) \<Longrightarrow> list_all2 P cs ds = list_all2 Q cs ds"
proof (induction cs arbitrary: ds)
  case Nil
  then show ?case by simp
next
  case (Cons c cs)
  then show ?case by (cases ds) auto
qed

lemma upper_eq_name:
  assumes beyond: "\<And>c. 128 \<le> c \<Longrightarrow> \<exists>x\<in>set (beyond c). 128 \<le> x"
    and name: "\<And>d. d \<in> set name \<Longrightarrow> (97 \<le> d \<and> d \<le> 122) \<or> d = 45"
    and plain: "plain (map (\<lambda>d. if 97 \<le> d \<and> d \<le> 122 then d - 32 else d) name)"
  shows "upper beyond s = map (\<lambda>d. if 97 \<le> d \<and> d \<le> 122 then d - 32 else d) name
     \<longleftrightarrow> list_all2 spells s name"
proof -
  have "upper beyond s = map (\<lambda>d. if 97 \<le> d \<and> d \<le> 122 then d - 32 else d) name
     \<longleftrightarrow> list_all2 (\<lambda>c d. upper_point beyond c = [if 97 \<le> d \<and> d \<le> 122 then d - 32 else d]) s name"
    using upper_plain [where beyond = beyond, OF _ plain] beyond by (simp add: list_all2_map2)
  also have "\<dots> \<longleftrightarrow> list_all2 spells s name"
    using upper_point_single [where beyond = beyond] beyond name
    by (intro list_all2_cong_right) blast
  finally show ?thesis .
qed

lemma upper_eq_REDIS:
  assumes "\<And>c. 128 \<le> c \<Longrightarrow> \<exists>x\<in>set (beyond c). 128 \<le> x"
  shows "upper beyond s = lit ''REDIS'' \<longleftrightarrow> spelling_of ''redis'' s"
proof -
  have n: "\<And>d. d \<in> set (lit ''redis'') \<Longrightarrow> (97 \<le> d \<and> d \<le> 122) \<or> d = 45"
    by (auto simp: lit_def)
  have p: "plain (map (\<lambda>d. if 97 \<le> d \<and> d \<le> 122 then d - 32 else d) (lit ''redis''))"
    by (simp add: lit_def)
  have e: "lit ''REDIS'' = map (\<lambda>d. if 97 \<le> d \<and> d \<le> 122 then d - 32 else d) (lit ''redis'')"
    by (simp add: lit_def)
  show ?thesis unfolding spelling_of_def e
  proof (rule upper_eq_name)
    show "\<And>c. 128 \<le> c \<Longrightarrow> \<exists>x\<in>set (beyond c). 128 \<le> x" by (rule assms)
    show "\<And>d. d \<in> set (lit ''redis'') \<Longrightarrow> (97 \<le> d \<and> d \<le> 122) \<or> d = 45" by (rule n)
    show "plain (map (\<lambda>d. if 97 \<le> d \<and> d \<le> 122 then d - 32 else d) (lit ''redis''))" by (rule p)
  qed
qed

lemma upper_eq_GCP:
  assumes "\<And>c. 128 \<le> c \<Longrightarrow> \<exists>x\<in>set (beyond c). 128 \<le> x"
  shows "upper beyond s = lit ''GCP-PUBSUB'' \<longleftrightarrow> spelling_of ''gcp-pubsub'' s"
proof -
  have n: "\<And>d. d \<in> set (lit ''gcp-pubsub'') \<Longrightarrow> (97 \<le> d \<and> d \<le> 122) \<or> d = 45"
    by (auto simp: lit_def)
  have p: "plain (map (\<lambda>d. if 97 \<le> d \<and> d \<le> 122 then d - 32 else d) (lit ''gcp-pubsub''))"
    by (simp add: lit_def)
  have e: "lit ''GCP-PUBSUB'' = map (\<lambda>d. if 97 \<le> d \<and> d \<le> 122 then d - 32 else d) (lit ''gcp-pubsub'')"
    by (simp add: lit_def)
  show ?thesis unfolding spelling_of_def e
  proof (rule upper_eq_name)
    show "\<And>c. 128 \<le> c \<Longrightarrow> \<exists>x\<in>set (beyond c). 128 \<le> x" by (rule assms)
    show "\<And>d. d \<in> set (lit ''gcp-pubsub'') \<Longrightarrow> (97 \<le> d \<and> d \<le> 122) \<or> d = 45" by (rule n)
    show "plain (map (\<lambda>d. if 97 \<le> d \<and> d \<le> 122 then d - 32 else d) (lit ''gcp-pubsub''))" by (rule p)
  qed
qed

lemma any_casing_spelling: "any_casing_of name s \<Longrightarrow> spelling_of name s"
  unfolding any_casing_of_def spelling_of_def
  by (erule list_all2_mono) (simp add: spells_def)

lemma latin1_beyond: "128 \<le> c \<Longrightarrow> \<exists>x\<in>set (latin1 c). 128 \<le> x"
  by (auto simp: latin1_def)

text \<open>
  C4, as the code has it. Of the Unicode table beyond the code points written out in
  \<open>upper_point\<close>, the theorem needs that no uppercase there is made of ASCII code points
  only. Then an identifier that is \<open>redis\<close> in any letter casing gives the class
  \<open>RedisPubsub\<close> and one that is \<open>gcp-pubsub\<close> in any letter casing gives the class
  \<open>GCPPubSub\<close>, in both cases the class and not an object. The factory accepts more than
  the casings: it returns the class for exactly the spellings of the name that may also
  have a dotless i for an \<open>i\<close> and a long s for an \<open>s\<close>. Every other identifier makes it log
  one line at level fatal and end the process with exit status 1.
\<close>

theorem pubsubFactory_cases:
  assumes "\<And>c. 128 \<le> c \<Longrightarrow> \<exists>x\<in>set (beyond c). 128 \<le> x"
  shows "(any_casing_of ''redis'' broker \<longrightarrow> pubsubFactory beyond BROKER broker = Returns RedisPubsub)
    \<and> (any_casing_of ''gcp-pubsub'' broker \<longrightarrow> pubsubFactory beyond BROKER broker = Returns GCPPubSub)
    \<and> pubsubFactory beyond BROKER broker =
       (if spelling_of ''redis'' broker then Returns RedisPubsub
        else if spelling_of ''gcp-pubsub'' broker then Returns GCPPubSub
        else Exits 1 [lit ''Broker type <'' @ BROKER @ lit ''> not available yet.''])"
proof -
  have main: "pubsubFactory beyond BROKER broker =
       (if spelling_of ''redis'' broker then Returns RedisPubsub
        else if spelling_of ''gcp-pubsub'' broker then Returns GCPPubSub
        else Exits 1 [lit ''Broker type <'' @ BROKER @ lit ''> not available yet.''])"
    using upper_eq_REDIS [where beyond = beyond and s = broker]
      upper_eq_GCP [where beyond = beyond and s = broker] assms
    by (simp add: pubsubFactory_def)
  have "\<not> (spelling_of ''redis'' broker \<and> spelling_of ''gcp-pubsub'' broker)"
    by (auto simp: spelling_of_def lit_def dest!: list_all2_lengthD)
  then show ?thesis using main any_casing_spelling [of _ broker] by auto
qed

theorem pubsubFactory_cases_witness:
  "any_casing_of ''redis'' (lit ''ReDiS'')
   \<and> pubsubFactory latin1 (lit ''GCP_PUBSUB'') (lit ''ReDiS'') = Returns RedisPubsub
   \<and> any_casing_of ''gcp-pubsub'' (lit ''Gcp-PubSub'')
   \<and> pubsubFactory latin1 (lit ''GCP_PUBSUB'') (lit ''Gcp-PubSub'') = Returns GCPPubSub
   \<and> spelling_of ''redis'' [114, 101, 100, 305, 115]
   \<and> pubsubFactory latin1 (lit ''GCP_PUBSUB'') [114, 101, 100, 305, 115] = Returns RedisPubsub
   \<and> spelling_of ''gcp-pubsub'' [103, 99, 112, 45, 112, 117, 98, 383, 117, 98]
   \<and> pubsubFactory latin1 (lit ''GCP_PUBSUB'') [103, 99, 112, 45, 112, 117, 98, 383, 117, 98]
       = Returns GCPPubSub
   \<and> pubsubFactory latin1 (lit ''GCP_PUBSUB'') [114, 233, 100, 105, 115]
       = Exits 1 [lit ''Broker type <GCP_PUBSUB> not available yet.'']"
  using pubsubFactory_cases [where beyond = latin1 and BROKER = "lit ''GCP_PUBSUB''" and broker = "lit ''ReDiS''"]
    pubsubFactory_cases [where beyond = latin1 and BROKER = "lit ''GCP_PUBSUB''" and broker = "lit ''Gcp-PubSub''"]
    pubsubFactory_cases [where beyond = latin1 and BROKER = "lit ''GCP_PUBSUB''"
      and broker = "[114, 101, 100, 305, 115]"]
    pubsubFactory_cases [where beyond = latin1 and BROKER = "lit ''GCP_PUBSUB''"
      and broker = "[103, 99, 112, 45, 112, 117, 98, 383, 117, 98]"]
    pubsubFactory_cases [where beyond = latin1 and BROKER = "lit ''GCP_PUBSUB''"
      and broker = "[114, 233, 100, 105, 115]"]
    latin1_beyond
  by (simp add: any_casing_of_def spelling_of_def spells_def same_letter_def lit_def)

text \<open>
  The property as the specification states it fails: \<open>kafka\<close> is no casing of a supported
  identifier, and the factory neither returns nor raises an \<open>UnsupportedBrokerError\<close> for
  it but ends the process.
\<close>

theorem pubsubFactory_unsupported_exits:
  "\<not> any_casing_of ''redis'' (lit ''kafka'') \<and> \<not> any_casing_of ''gcp-pubsub'' (lit ''kafka'')
   \<and> pubsubFactory latin1 (lit ''GCP_PUBSUB'') (lit ''kafka'')
       = Exits 1 [lit ''Broker type <GCP_PUBSUB> not available yet.'']
   \<and> pubsubFactory latin1 (lit ''GCP_PUBSUB'') (lit ''kafka'') \<noteq> Raises ''UnsupportedBrokerError''"
  by (simp add: any_casing_of_def same_letter_def lit_def pubsubFactory_def upper_def
      upper_point_def)

text \<open>
  Whatever the rest of the Unicode table is, the spelling of \<open>redis\<close> with a dotless i is
  no casing of the name and gives the class.
\<close>

lemma pubsubFactory_dotless_i:
  "\<not> any_casing_of ''redis'' [114, 101, 100, 305, 115]
   \<and> pubsubFactory beyond BROKER [114, 101, 100, 305, 115] = Returns RedisPubsub"
  by (simp add: any_casing_of_def same_letter_def lit_def pubsubFactory_def upper_def
      upper_point_def)

section \<open>UTF-8: decoding undoes encoding, and encoding undoes decoding\<close>

lemma join2: "(c::nat) div 64 * 64 + c mod 64 = c"
  by simp

lemma shift64: "(d::nat) * 64 = d div 64 * 4096 + d mod 64 * 64"
  using div_mult_mod_eq [of d 64] by linarith

lemma shift4096: "(d::nat) * 4096 = d div 64 * 262144 + d mod 64 * 4096"
  using div_mult_mod_eq [of d 64] by linarith

lemma join3: "(c::nat) div 4096 * 4096 + c div 64 mod 64 * 64 + c mod 64 = c"
proof -
  have "c div 64 div 64 = c div 4096" by (simp add: div_mult2_eq [symmetric])
  then have "c div 64 * 64 = c div 4096 * 4096 + c div 64 mod 64 * 64"
    using shift64 [of "c div 64"] by simp
  then show ?thesis using join2 [of c] by linarith
qed

lemma join4:
  "(c::nat) div 262144 * 262144 + c div 4096 mod 64 * 4096 + c div 64 mod 64 * 64 + c mod 64 = c"
proof -
  have "c div 4096 div 64 = c div 262144" by (simp add: div_mult2_eq [symmetric])
  then have "c div 4096 * 4096 = c div 262144 * 262144 + c div 4096 mod 64 * 4096"
    using shift4096 [of "c div 4096"] by simp
  then show ?thesis using join3 [of c] by linarith
qed

lemma r2: "128 \<le> (c::nat) \<Longrightarrow> c < 2048 \<Longrightarrow> 194 \<le> 192 + c div 64 \<and> 192 + c div 64 < 224"
  by (simp add: less_mult_imp_div_less le_div_geq) 

lemma r3: "(c::nat) < 65536 \<Longrightarrow> 224 + c div 4096 < 240"
  by (simp add: less_mult_imp_div_less) 

lemma r4: "(c::nat) < 1114112 \<Longrightarrow> 240 + c div 262144 < 245"
  by (simp add: less_mult_imp_div_less) 


lemma decode_two:
  assumes "128 \<le> c" "c < 2048"
  shows "decode ([192 + c div 64, 128 + c mod 64] @ rest) = map_option ((#) c) (decode rest)"
proof -
  have "194 \<le> 192 + c div 64" "192 + c div 64 < 224" using r2 [OF assms] by simp_all
  then show ?thesis by (simp add: continuation_def join2)
qed

lemma decode_three:
  assumes "2048 \<le> c" "c < 65536" "\<not> surrogate c"
  shows "decode ([224 + c div 4096, 128 + c div 64 mod 64, 128 + c mod 64] @ rest)
     = map_option ((#) c) (decode rest)"
proof -
  have "224 + c div 4096 < 240" using r3 assms by simp
  then show ?thesis using assms by (simp add: continuation_def join3)
qed

lemma decode_four:
  assumes "65536 \<le> c" "c < 1114112"
  shows "decode ([240 + c div 262144, 128 + c div 4096 mod 64, 128 + c div 64 mod 64,
              128 + c mod 64] @ rest)
     = map_option ((#) c) (decode rest)"
proof -
  have "240 + c div 262144 < 245" using r4 assms by simp
  then show ?thesis using assms by (simp add: continuation_def join4)
qed

lemma decode_encode_point:
  assumes "encode_point c = Some bs"
  shows "decode (bs @ rest) = map_option ((#) c) (decode rest)"
proof -
  consider (one) "c < 128" | (two) "128 \<le> c" "c < 2048"
    | (three) "2048 \<le> c" "c < 65536" | (four) "65536 \<le> c" "c < 1114112"
    | (big) "1114112 \<le> c"
    by linarith
  then show ?thesis
  proof cases
    case one
    with assms show ?thesis by (auto simp: encode_point_def)
  next
    case two
    then have bs: "bs = [192 + c div 64, 128 + c mod 64]"
      using assms by (simp add: encode_point_def)
    show ?thesis unfolding bs using two by (rule decode_two)
  next
    case three
    then have ns: "\<not> surrogate c"
      and bs: "bs = [224 + c div 4096, 128 + c div 64 mod 64, 128 + c mod 64]"
      using assms by (auto simp: encode_point_def split: if_splits)
    show ?thesis unfolding bs using three ns by (rule decode_three)
  next
    case four
    then have bs: "bs = [240 + c div 262144, 128 + c div 4096 mod 64, 128 + c div 64 mod 64,
              128 + c mod 64]"
      using assms by (auto simp: encode_point_def split: if_splits)
    show ?thesis unfolding bs using four by (rule decode_four)
  next
    case big
    with assms show ?thesis by (simp add: encode_point_def)
  qed
qed

lemma decode_encode: "encode t = Some bs \<Longrightarrow> decode bs = Some t"
proof (induction t arbitrary: bs)
  case Nil
  then show ?case by simp
next
  case (Cons c cs)
  then show ?case
    by (auto split: option.splits simp: decode_encode_point)
qed


lemma split2: "y < 64 \<Longrightarrow> ((x::nat) * 64 + y) div 64 = x \<and> (x * 64 + y) mod 64 = y"
  by simp

lemma div64_three: "z < 64 \<Longrightarrow> ((x::nat) * 4096 + y * 64 + z) div 64 = x * 64 + y"
proof -
  assume z: "z < 64"
  have e: "x * 4096 + y * 64 + z = (x * 64 + y) * 64 + z" by simp
  show ?thesis unfolding e by (rule conjunct1 [OF split2 [OF z]])
qed

lemma split3:
  assumes "y < 64" "z < 64"
  shows "((x::nat) * 4096 + y * 64 + z) div 4096 = x
    \<and> (x * 4096 + y * 64 + z) div 64 mod 64 = y
    \<and> (x * 4096 + y * 64 + z) mod 64 = z"
proof -
  have e: "x * 4096 + y * 64 + z = (x * 64 + y) * 64 + z" by simp
  have a: "(x * 4096 + y * 64 + z) div 64 = x * 64 + y"
    unfolding e by (rule conjunct1 [OF split2 [OF assms(2)]])
  have "(x * 4096 + y * 64 + z) div 4096 = (x * 4096 + y * 64 + z) div 64 div 64"
    by (simp add: div_mult2_eq [symmetric])
  then have b: "(x * 4096 + y * 64 + z) div 4096 = x" unfolding a using assms by simp
  have c: "(x * 4096 + y * 64 + z) mod 64 = z"
    unfolding e by (rule conjunct2 [OF split2 [OF assms(2)]])
  show ?thesis using a b c assms by simp
qed

lemma split4:
  assumes "y < 64" "z < 64" "u < 64"
  shows "((x::nat) * 262144 + y * 4096 + z * 64 + u) div 262144 = x
    \<and> (x * 262144 + y * 4096 + z * 64 + u) div 4096 mod 64 = y
    \<and> (x * 262144 + y * 4096 + z * 64 + u) div 64 mod 64 = z
    \<and> (x * 262144 + y * 4096 + z * 64 + u) mod 64 = u"
proof -
  let ?c = "x * 262144 + y * 4096 + z * 64 + u"
  have e: "?c = (x * 4096 + y * 64 + z) * 64 + u" by simp
  have a: "?c div 64 = x * 4096 + y * 64 + z"
    unfolding e by (rule conjunct1 [OF split2 [OF assms(3)]])
  have d: "?c mod 64 = u"
    unfolding e by (rule conjunct2 [OF split2 [OF assms(3)]])
  have "?c div 4096 = ?c div 64 div 64" by (simp add: div_mult2_eq [symmetric])
  then have b: "?c div 4096 = x * 64 + y"
    unfolding a using div64_three [OF assms(2), of x y] by simp
  have "?c div 262144 = ?c div 4096 div 64" by (simp add: div_mult2_eq [symmetric])
  then have c: "?c div 262144 = x" unfolding b using assms by simp
  have f: "?c div 64 mod 64 = z" unfolding a using split3 [OF assms(1,2), of x] by simp
  have g: "?c div 4096 mod 64 = y" unfolding b using assms by simp
  show ?thesis using c g f d by simp
qed

lemma encode_point_two:
  assumes "2 \<le> x" "x < 32" "y < 64"
  shows "encode_point (x * 64 + y) = Some [192 + x, 128 + y]"
proof -
  have "128 \<le> x * 64 + y" "x * 64 + y < 2048" using assms by simp_all
  then show ?thesis using split2 [OF assms(3), of x] by (simp add: encode_point_def)
qed

lemma encode_point_three:
  assumes "x < 16" "y < 64" "z < 64" "2048 \<le> x * 4096 + y * 64 + z"
    "\<not> surrogate (x * 4096 + y * 64 + z)"
  shows "encode_point (x * 4096 + y * 64 + z) = Some [224 + x, 128 + y, 128 + z]"
proof -
  have "x * 4096 + y * 64 + z < 65536" using assms by simp
  then show ?thesis using split3 [OF assms(2,3), of x] assms(4,5)
    by (simp add: encode_point_def)
qed

lemma encode_point_four:
  assumes "y < 64" "z < 64" "u < 64" "65536 \<le> x * 262144 + y * 4096 + z * 64 + u"
    "x * 262144 + y * 4096 + z * 64 + u < 1114112"
  shows "encode_point (x * 262144 + y * 4096 + z * 64 + u)
    = Some [240 + x, 128 + y, 128 + z, 128 + u]"
  using split4 [OF assms(1,2,3), of x] assms(4,5)
  by (simp add: encode_point_def)


lemma encode_decode: "decode bs = Some t \<Longrightarrow> encode t = Some bs"
proof (induction bs arbitrary: t rule: decode.induct)
  case 1
  then show ?case by simp
next
  case (2 b0 bs)
  consider (one) "b0 < 128" | (two) "194 \<le> b0" "b0 < 224" | (three) "224 \<le> b0" "b0 < 240"
    | (four) "240 \<le> b0" "b0 < 245"
    | (bad) "128 \<le> b0" "b0 < 194" | (big) "245 \<le> b0"
    by linarith
  then show ?case
  proof cases
    case one
    then obtain t' where t': "decode bs = Some t'" "t = b0 # t'"
      using "2.prems" by auto
    then have "encode t' = Some bs" using "2.IH"(1) one by simp
    then show ?thesis using t' one by (simp add: encode_point_def)
  next
    case two
    then obtain b1 rest t' where bs: "bs = b1 # rest" and c: "continuation b1"
      and t': "decode rest = Some t'" "t = ((b0 - 192) * 64 + (b1 - 128)) # t'"
      using "2.prems" by (auto split: list.splits if_splits)
    have "encode t' = Some rest" using "2.IH"(2) [OF _ _ bs c t'(1)] two by simp
    moreover have "encode_point ((b0 - 192) * 64 + (b1 - 128)) = Some [192 + (b0 - 192), 128 + (b1 - 128)]"
      using two c by (intro encode_point_two) (auto simp: continuation_def)
    ultimately show ?thesis using two c bs t' by (simp add: continuation_def)
  next
    case three
    then obtain b1 b2 rest t' where bs: "bs = b1 # b2 # rest"
      and c: "continuation b1 \<and> continuation b2
                \<and> 2048 \<le> (b0 - 224) * 4096 + (b1 - 128) * 64 + (b2 - 128)
                \<and> \<not> surrogate ((b0 - 224) * 4096 + (b1 - 128) * 64 + (b2 - 128))"
      and t': "decode rest = Some t'" "t = ((b0 - 224) * 4096 + (b1 - 128) * 64 + (b2 - 128)) # t'"
      using "2.prems" by (auto split: list.splits if_splits)
    have "encode t' = Some rest" using "2.IH"(3) [OF _ _ _ bs refl c t'(1)] three by simp
    moreover have "encode_point ((b0 - 224) * 4096 + (b1 - 128) * 64 + (b2 - 128))
        = Some [224 + (b0 - 224), 128 + (b1 - 128), 128 + (b2 - 128)]"
      using three c by (intro encode_point_three) (auto simp: continuation_def)
    ultimately show ?thesis using three c bs t' by (simp add: continuation_def)
  next
    case four
    then obtain b1 b2 b3 rest t' where bs: "bs = b1 # b2 # b3 # rest"
      and c: "continuation b1 \<and> continuation b2 \<and> continuation b3
                \<and> 65536 \<le> (b0 - 240) * 262144 + (b1 - 128) * 4096 + (b2 - 128) * 64 + (b3 - 128)
                \<and> (b0 - 240) * 262144 + (b1 - 128) * 4096 + (b2 - 128) * 64 + (b3 - 128) < 1114112"
      and t': "decode rest = Some t'"
        "t = ((b0 - 240) * 262144 + (b1 - 128) * 4096 + (b2 - 128) * 64 + (b3 - 128)) # t'"
      using "2.prems" by (auto split: list.splits if_splits)
    have "encode t' = Some rest"
      using "2.IH"(4) [OF _ _ _ _ bs refl refl c t'(1)] four by simp
    moreover have "encode_point ((b0 - 240) * 262144 + (b1 - 128) * 4096 + (b2 - 128) * 64 + (b3 - 128))
        = Some [240 + (b0 - 240), 128 + (b1 - 128), 128 + (b2 - 128), 128 + (b3 - 128)]"
      using four c by (intro encode_point_four) (auto simp: continuation_def)
    ultimately show ?thesis using four c bs t' by (simp add: continuation_def)
  next
    case bad
    then show ?thesis using "2.prems" by simp
  next
    case big
    then show ?thesis using "2.prems" by simp
  qed
qed

section \<open>Round trip of a payload\<close>

text \<open>
  C5, as the code has it. Let \<open>b\<close> be the bytes \<^verbatim>\<open>GCPPubSub.publish\<close> computes for a payload
  (the payload itself if it is bytes, its UTF-8 encoding if it is text). An opened client
  whose call the service serves hands the service exactly \<open>b\<close>. A published text always
  decodes to itself. Whenever \<open>b\<close> decodes, to \<open>s\<close>, the decode step of either client's
  \<^verbatim>\<open>exec_callback\<close> calls the user's callback with \<open>s\<close>, and the encoding of \<open>s\<close> is \<open>b\<close>
  byte for byte. When \<open>b\<close> does not decode (bytes that are not well-formed UTF-8), the
  callback is not called: the decode step faults.
\<close>

theorem payload_round_trip:
  assumes "payload msg = Some b"
  shows "(\<forall>t. msg = Text t \<longrightarrow> decode b = Some t)
    \<and> (\<forall>s. decode b = Some s \<longrightarrow>
          encode s = Some b
          \<and> (\<exists>r w'. gcp_exec_callback_body callback \<lparr>message_id = i, data = b\<rparr> w = Some (r, w')
                \<and> ghanded w' = ghanded w @ [s])
          \<and> (\<exists>r w'. redis_exec_callback_body callback'
                  \<lparr>ev_type = ''message'', ev_channel = c, ev_data = DataBytes b\<rparr>
                  \<lparr>ev_type = ''message'', ev_channel = c, ev_data = DataBytes b\<rparr> v = Some (r, w')
                \<and> handed w' = handed v @ [s]))
    \<and> (decode b = None \<longrightarrow>
          gcp_exec_callback_body callback \<lparr>message_id = i, data = b\<rparr> w
            = Some (Inl MessageProcessingException, glogger (Error UnicodeDecodeError) w)
          \<and> redis_exec_callback_body callback'
                  \<lparr>ev_type = ''message'', ev_channel = c, ev_data = DataBytes b\<rparr>
                  \<lparr>ev_type = ''message'', ev_channel = c, ev_data = DataBytes b\<rparr> v
            = Some (Inl UnicodeDecodeError, v))
    \<and> (publisher_client w \<and> (\<forall>e. Failing e \<notin> set (take 1 (api w))) \<longrightarrow>
          gcp_publish_body msg w
            = Some (Inr (length (outbox w)),
                    w\<lparr>api := tl (api w), outbox := outbox w @ [(shown (topic_path w), b)]\<rparr>))"
proof (intro conjI allI impI)
  fix t assume "msg = Text t"
  then show "decode b = Some t" using assms by (simp add: decode_encode)
next
  fix s assume "decode b = Some s"
  then show "encode s = Some b" by (rule encode_decode)
next
  fix s assume "decode b = Some s"
  then show "\<exists>r w'. gcp_exec_callback_body callback \<lparr>message_id = i, data = b\<rparr> w = Some (r, w')
                \<and> ghanded w' = ghanded w @ [s]"
    by (auto simp: gcp_exec_callback_body_def glogger_def split: prod.splits option.splits)
next
  fix s assume "decode b = Some s"
  then show "\<exists>r w'. redis_exec_callback_body callback'
                  \<lparr>ev_type = ''message'', ev_channel = c, ev_data = DataBytes b\<rparr>
                  \<lparr>ev_type = ''message'', ev_channel = c, ev_data = DataBytes b\<rparr> v = Some (r, w')
                \<and> handed w' = handed v @ [s]"
    by (auto simp: redis_exec_callback_body_def split: prod.splits option.splits)
next
  assume "decode b = None"
  then show "gcp_exec_callback_body callback \<lparr>message_id = i, data = b\<rparr> w
            = Some (Inl MessageProcessingException, glogger (Error UnicodeDecodeError) w)"
    by (simp add: gcp_exec_callback_body_def)
next
  assume "decode b = None"
  then show "redis_exec_callback_body callback'
                  \<lparr>ev_type = ''message'', ev_channel = c, ev_data = DataBytes b\<rparr>
                  \<lparr>ev_type = ''message'', ev_channel = c, ev_data = DataBytes b\<rparr> v
            = Some (Inl UnicodeDecodeError, v)"
    by (simp add: redis_exec_callback_body_def)
next
  assume a: "publisher_client w \<and> (\<forall>e. Failing e \<notin> set (take 1 (api w)))"
  show "gcp_publish_body msg w
            = Some (Inr (length (outbox w)),
                    w\<lparr>api := tl (api w), outbox := outbox w @ [(shown (topic_path w), b)]\<rparr>)"
  proof (cases "api w")
    case Nil
    then show ?thesis using a assms by (simp add: gcp_publish_body_def next_event_def)
  next
    case (Cons x xs)
    then show ?thesis using a assms
      by (cases x) (simp_all add: gcp_publish_body_def next_event_def)
  qed
qed
theorem payload_round_trip_witness:
  "payload (Text [104, 233]) = Some [104, 195, 169]
   \<and> decode [104, 195, 169] = Some [104, 233]
   \<and> gcp_exec_callback_body counting \<lparr>message_id = 7, data = [104, 195, 169]\<rparr> opened_gcp
       = Some (Inr (), opened_gcp\<lparr>ghanded := [[104, 233]], guser := 1, acked := [7]\<rparr>)
   \<and> gcp_publish_body (Text [104, 233]) opened_gcp
       = Some (Inr 0, opened_gcp\<lparr>outbox := [(''projects/p/topics/t'', [104, 195, 169])]\<rparr>)"
proof -
  have p: "payload (Text [104, 233]) = Some [104, 195, 169]"
    by (simp add: encode_point_def surrogate_def)
  have d: "decode [104, 195, 169] = Some [104, 233]"
    by (simp add: continuation_def)
  show ?thesis
    using payload_round_trip [OF p, of counting 7 opened_gcp counting "''t''" opened_redis] p d
    by (simp add: gcp_exec_callback_body_def gcp_publish_body_def next_event_def counting_def
        opened_gcp_def)
qed

text \<open>
  The property as the specification states it fails on bytes that are not well-formed UTF-8:
  the single byte 255 is published as it is, and the consumer that receives it raises
  without having called the callback.
\<close>

theorem payload_not_utf8_not_handed:
  "payload (Bytes [255]) = Some [255]
   \<and> gcp_exec_callback_body counting \<lparr>message_id = 7, data = [255]\<rparr> opened_gcp
       = Some (Inl MessageProcessingException, opened_gcp\<lparr>glog := [Error UnicodeDecodeError]\<rparr>)
   \<and> ghanded (opened_gcp\<lparr>glog := [Error UnicodeDecodeError]\<rparr>) = []"
  by (simp add: gcp_exec_callback_body_def glogger_def opened_gcp_def)

section \<open>Properties of the key-value-store client\<close>

text \<open>
  C10. An event whose type is not \<open>message\<close>, such as the confirmation of the subscription,
  passes through the wrapper callback without any effect: the callback is not called,
  nothing is published, no fault is raised and the state is the one before. The loop then
  goes on with what follows: if nothing follows it ends normally, if the iteration raises
  next that fault leaves the loop, and if a message event follows whose callback returns,
  the callback is called with the payload of that event.
\<close>

theorem event_loop_skips_other_events:
  assumes "ev_type msg \<noteq> ''message''"
  shows "redis_exec_callback (Suc fuel) callback msg w = Some (Inr (Some ()), w)
    \<and> event_loop (Suc fuel) callback deadLetter (Yields msg # rest) w
        = event_loop (Suc fuel) callback deadLetter rest w
    \<and> event_loop (Suc fuel) callback deadLetter [Yields msg] w = Some (Inr (), [], w)
    \<and> event_loop (Suc fuel) callback deadLetter (Yields msg # ListenRaises e # rest) w
        = Some (Inl e, rest, w)
    \<and> (\<forall>nxt b s u'. ev_type nxt = ''message'' \<and> ev_data nxt = DataBytes b \<and> decode b = Some s
          \<and> callback s (user w) = (None, u') \<longrightarrow>
          event_loop (Suc fuel) callback deadLetter [Yields msg, Yields nxt] w
            = Some (Inr (), [], w\<lparr>handed := handed w @ [s], user := u'\<rparr>)
          \<and> event_loop (Suc fuel) callback deadLetter (Yields msg # Yields nxt # rest) w
            = event_loop (Suc fuel) callback deadLetter rest
                (w\<lparr>handed := handed w @ [s], user := u'\<rparr>))"
  using assms by (simp add: redis_exec_callback_def redis_exec_callback_body_def)

theorem event_loop_skips_other_events_witness:
  "ev_type confirmation \<noteq> ''message''
   \<and> redis_exec_callback (Suc 0) counting confirmation opened_redis
       = Some (Inr (Some ()), opened_redis)
   \<and> event_loop (Suc 0) counting (Some ''dead'') [Yields confirmation] opened_redis
       = Some (Inr (), [], opened_redis)
   \<and> ev_type greeting = ''message'' \<and> ev_data greeting = DataBytes [104, 105]
   \<and> decode [104, 105] = Some [104, 105] \<and> counting [104, 105] (user opened_redis) = (None, 1)
   \<and> event_loop (Suc 0) counting (Some ''dead'') [Yields confirmation, Yields greeting] opened_redis
       = Some (Inr (), [], opened_redis\<lparr>handed := [[104, 105]], user := 1\<rparr>)
   \<and> event_loop (Suc 0) counting (Some ''dead'')
        [Yields confirmation, Yields greeting, Yields confirmation, Yields greeting] opened_redis
       = Some (Inr (), [], opened_redis\<lparr>handed := [[104, 105], [104, 105]], user := 2\<rparr>)
   \<and> event_loop (Suc 0) counting (Some ''dead'')
        [Yields confirmation, ListenRaises RedisConnectionError, Yields greeting] opened_redis
       = Some (Inl RedisConnectionError, [Yields greeting], opened_redis)"
proof -
  have h: "ev_type confirmation \<noteq> ''message''" by (simp add: confirmation_def)
  show ?thesis
    using h event_loop_skips_other_events
      [OF h, where fuel = 0 and callback = counting and w = opened_redis
         and deadLetter = "Some ''dead''" and rest = "[Yields confirmation, Yields greeting]"
         and e = RedisConnectionError]
    by (simp add: greeting_def counting_def confirmation_def opened_redis_def
      redis_exec_callback_def redis_exec_callback_body_def transport_faults_def)
qed


lemma dead_letter_publish_refused:
  "client_publish channel (EventDict ev) w
     = (Some DataError, w\<lparr>offered := offered w @ [(channel, EventDict ev)]\<rparr>)"
  by (simp add: client_publish_def)





text \<open>
  C9. On a client that was made and never opened, \<^verbatim>\<open>close\<close> of the key-value-store client
  raises: \<^verbatim>\<open>self._client\<close> is still \<open>None\<close>, and \<^verbatim>\<open>self._client.close()\<close> is an
  \<open>AttributeError\<close>. The state is left as it was.
\<close>

theorem RedisPubsub_close_before_open:
  "RedisPubsub_close (RedisPubsub_init e topic_arg net u)
     = (Inl AttributeError, RedisPubsub_init e topic_arg net u)"
  by (simp add: RedisPubsub_close_def RedisPubsub_init_def)

text \<open>
  Once \<^verbatim>\<open>open\<close> has run, whether the ping succeeded or not, \<^verbatim>\<open>close\<close> returns; the cloud
  client's \<^verbatim>\<open>close\<close> returns in every state.
\<close>

lemma RedisPubsub_close_after_open:
  "RedisPubsub_open (Suc fuel) w = Some (r, w') \<Longrightarrow> fst (RedisPubsub_close w') = Inr ()"
proof (induction fuel arbitrary: w)
  case 0
  then show ?case
    by (auto simp: RedisPubsub_open_def RedisPubsub_close_def redis_open_body_def logger_def
        round_trip_def transport_faults_def Let_def split: list.splits option.splits if_splits)
next
  case (Suc fuel)
  have "\<exists>r1 w1. redis_open_body w = Some (r1, w1)"
    by (simp add: redis_open_body_def round_trip_def Let_def split: list.splits option.splits)
  then obtain r1 w1 where b: "redis_open_body w = Some (r1, w1)" by blast
  then have c: "client w1 = Some Live"
    by (auto simp: redis_open_body_def logger_def round_trip_def Let_def
        split: list.splits option.splits)
  show ?case
  proof (cases "r1 = Inl GaiError \<or> r1 = Inl RedisConnectionError")
    case True
    then have "RedisPubsub_open (Suc fuel) w1 = Some (r, w')"
      using Suc.prems b by (auto simp: RedisPubsub_open_def transport_faults_def)
    then show ?thesis by (rule Suc.IH)
  next
    case False
    then have "w' = w1"
      using Suc.prems b
      by (cases r1) (auto simp: RedisPubsub_open_def transport_faults_def split: if_splits)
    then show ?thesis using c by (simp add: RedisPubsub_close_def)
  qed
qed

lemma GCPPubSub_close_returns: "fst (GCPPubSub_close w) = Inr ()"
  by (simp add: GCPPubSub_close_def)

section \<open>Lemmas on the cloud client\<close>

text \<open>A run of the body of \<^verbatim>\<open>exec_callback\<close>, and of the decorated function, by cases.\<close>

lemma gcp_body_total:
  "\<exists>r w'. gcp_exec_callback_body callback m w = Some (r, w')"
  by (auto simp: gcp_exec_callback_body_def split: option.splits prod.splits)

lemma gcp_body_cases:
  assumes "gcp_exec_callback_body callback m w = Some (r, w')"
  shows "(r = Inr () \<and> acked w' = acked w @ [message_id m])
       \<or> (r = Inl MessageProcessingException \<and> acked w' = acked w)
       \<or> (\<exists>e. r = Inl e \<and> \<not> is_Exception e \<and> acked w' = acked w)"
  using assms
  by (auto simp: gcp_exec_callback_body_def glogger_def split: option.splits prod.splits if_splits)

lemma gcp_exec_callback_acked:
  assumes "gcp_exec_callback fuel callback m w = Some (r, w')"
  shows "(r = Inr (Some ()) \<and> acked w' = acked w @ [message_id m])
       \<or> (\<exists>e. r = Inl e \<and> \<not> is_Exception e \<and> acked w' = acked w)"
  using assms
proof (induction fuel arbitrary: w)
  case 0
  then show ?case by (simp add: gcp_exec_callback_def)
next
  case (Suc fuel)
  obtain r1 w1 where b: "gcp_exec_callback_body callback m w = Some (r1, w1)"
    using gcp_body_total by blast
  from gcp_body_cases [OF b] show ?case
  proof (elim disjE conjE exE)
    assume "r1 = Inr ()" "acked w1 = acked w @ [message_id m]"
    then show ?thesis using Suc.prems b by (simp add: gcp_exec_callback_def)
  next
    assume h: "r1 = Inl MessageProcessingException" "acked w1 = acked w"
    then have "gcp_exec_callback fuel callback m w1 = Some (r, w')"
      using Suc.prems b by (simp add: gcp_exec_callback_def)
    from Suc.IH [OF this] h show ?thesis by simp
  next
    fix e assume "r1 = Inl e" "\<not> is_Exception e" "acked w1 = acked w"
    then show ?thesis using Suc.prems b
      by (cases e) (auto simp add: gcp_exec_callback_def)
  qed
qed

lemma exec_callback_body_outcome:
  "\<exists>r w'. gcp_exec_callback_body callback m w = Some (r, w')
     \<and> (r = Inr () \<longleftrightarrow> (\<exists>s u'. decode (data m) = Some s \<and> callback s (guser w) = (None, u')))
     \<and> acked w' = (if r = Inr () then acked w @ [message_id m] else acked w)
     \<and> (\<forall>s e u'. decode (data m) = Some s \<and> callback s (guser w) = (Some e, u')
            \<longrightarrow> r = Inl (if is_Exception e then MessageProcessingException else e)
                \<and> acked w' = acked w)"
proof (cases "decode (data m)")
  case None
  then show ?thesis by (simp add: gcp_exec_callback_body_def glogger_def)
next
  case (Some s)
  obtain o' u' where c: "callback s (guser w) = (o', u')" by (cases "callback s (guser w)")
  show ?thesis
  proof (cases o')
    case None
    then show ?thesis using Some c by (simp add: gcp_exec_callback_body_def)
  next
    case e: (Some e)
    then show ?thesis using Some c
      by (cases "is_Exception e") (simp_all add: gcp_exec_callback_body_def glogger_def)
  qed
qed

lemma exec_callback_returns:
  "decode (data m) = Some s \<Longrightarrow> callback s (guser w) = (None, u') \<Longrightarrow>
         gcp_exec_callback (Suc fuel) callback m w
           = Some (Inr (Some ()), w\<lparr>ghanded := ghanded w @ [s], guser := u',
                                     acked := acked w @ [message_id m]\<rparr>)"
  by (simp add: gcp_exec_callback_def gcp_exec_callback_body_def)

lemma exec_callback_raises:
  assumes "decode (data m) = Some s" "callback s (guser w) = (Some e, u')"
  shows "gcp_exec_callback (Suc fuel) callback m w
           = (if is_Exception e
              then gcp_exec_callback fuel callback m
                     (w\<lparr>ghanded := ghanded w @ [s], guser := u', glog := glog w @ [Error e]\<rparr>)
              else Some (Inl e, w\<lparr>ghanded := ghanded w @ [s], guser := u'\<rparr>))"
proof (cases "is_Exception e")
  case True
  then show ?thesis using assms
    by (simp add: gcp_exec_callback_def gcp_exec_callback_body_def glogger_def)
next
  case False
  then have "e = KeyboardInterrupt \<or> (\<exists>n. e = SystemExit n)" by (cases e) simp_all
  then show ?thesis using assms False
    by (auto simp add: gcp_exec_callback_def gcp_exec_callback_body_def)
qed

lemma exec_callback_no_processing_fault:
  assumes "gcp_exec_callback n callback m w = Some (r, w')"
  shows "r \<noteq> Inl MessageProcessingException
         \<and> ((r = Inr (Some ()) \<and> acked w' = acked w @ [message_id m])
            \<or> (\<exists>e. r = Inl e \<and> \<not> is_Exception e \<and> acked w' = acked w))"
proof -
  from gcp_exec_callback_acked [OF assms]
  have d: "(r = Inr (Some ()) \<and> acked w' = acked w @ [message_id m])
       \<or> (\<exists>e. r = Inl e \<and> \<not> is_Exception e \<and> acked w' = acked w)" .
  then have "r \<noteq> Inl MessageProcessingException" by auto
  then show ?thesis using d by simp
qed

text \<open>No call that \<^verbatim>\<open>consume\<close> makes changes what the service has accepted.\<close>

lemma next_event_outbox: "next_event w = (a, w') \<Longrightarrow> outbox w' = outbox w"
  by (auto simp: next_event_def split: list.splits)

lemma get_topic_outbox: "get_topic p w = (r, w') \<Longrightarrow> outbox w' = outbox w"
  by (auto simp: get_topic_def add_topic_def Let_def dest!: next_event_outbox
      split: prod.splits api_event.splits option.splits if_splits)

lemma create_topic_outbox: "create_topic p w = (r, w') \<Longrightarrow> outbox w' = outbox w"
  by (auto simp: create_topic_def add_topic_def Let_def dest!: next_event_outbox
      split: prod.splits api_event.splits option.splits if_splits)

lemma get_subscription_outbox: "get_subscription p w = (r, w') \<Longrightarrow> outbox w' = outbox w"
  by (auto simp: get_subscription_def add_subscription_def Let_def dest!: next_event_outbox
      split: prod.splits api_event.splits option.splits if_splits)

lemma create_subscription_outbox: "create_subscription p t w = (r, w') \<Longrightarrow> outbox w' = outbox w"
  by (auto simp: create_subscription_def add_subscription_def Let_def dest!: next_event_outbox
      split: prod.splits api_event.splits option.splits if_splits)

lemma check_topic_body_outbox: "check_topic_body w = Some (r, w') \<Longrightarrow> outbox w' = outbox w"
  by (auto simp: check_topic_body_def glogger_def Let_def
      dest!: get_topic_outbox create_topic_outbox
      split: prod.splits sum.splits if_splits)

lemma check_topic_outbox: "check_topic fuel w = Some (r, w') \<Longrightarrow> outbox w' = outbox w"
  unfolding check_topic_def
  by (rule connexion_keeps [where f = outbox]) (auto dest: check_topic_body_outbox)

lemma check_subscription_body_outbox:
  "check_subscription_body fuel p w = Some (r, w') \<Longrightarrow> outbox w' = outbox w"
  by (auto simp: check_subscription_body_def glogger_def Let_def
      dest!: get_subscription_outbox create_subscription_outbox check_topic_outbox
      split: prod.splits sum.splits if_splits option.splits)

lemma check_subscription_outbox:
  "check_subscription fuel p w = Some (r, w') \<Longrightarrow> outbox w' = outbox w"
  unfolding check_subscription_def
  by (rule connexion_keeps [where f = outbox]) (auto dest: check_subscription_body_outbox)

lemma gcp_exec_callback_body_outbox:
  "gcp_exec_callback_body callback m w = Some (r, w') \<Longrightarrow> outbox w' = outbox w"
  by (auto simp: gcp_exec_callback_body_def glogger_def
      split: prod.splits option.splits if_splits)

lemma gcp_exec_callback_outbox:
  "gcp_exec_callback fuel callback m w = Some (r, w') \<Longrightarrow> outbox w' = outbox w"
  unfolding gcp_exec_callback_def
  by (rule connexion_keeps [where f = outbox]) (auto dest: gcp_exec_callback_body_outbox)

lemma streaming_pull_outbox:
  "streaming_pull fuel callback items w = Some (r, rest, w') \<Longrightarrow> outbox w' = outbox w"
proof (induction items arbitrary: w)
  case Nil
  then show ?case by simp
next
  case (Cons it items)
  show ?case
  proof (cases it)
    case (ResultRaises e)
    then show ?thesis using Cons.prems by simp
  next
    case (Delivers m)
    then show ?thesis using Cons.prems Cons.IH
      by (auto split: option.splits prod.splits sum.splits dest!: gcp_exec_callback_outbox)
  qed
qed

lemma gcp_consume_body_outbox:
  "gcp_consume_body fuel callback subscription deadLetter (items, w) = Some (r, rest, w')
    \<Longrightarrow> outbox w' = outbox w"
  by (auto simp: gcp_consume_body_def glogger_def Let_def
      dest!: check_subscription_outbox streaming_pull_outbox
      split: prod.splits sum.splits if_splits option.splits)

text \<open>Provisioning in the setting \<open>ready\<close>.\<close>

lemma next_event_served:
  assumes "\<forall>e. Failing e \<notin> set (api w)"
  shows "\<exists>a. next_event w = (a, w\<lparr>api := tl (api w)\<rparr>) \<and> (a = Proceed \<or> a = Rival)
     \<and> (\<forall>e. Failing e \<notin> set (tl (api w)))"
proof (cases "api w")
  case Nil
  then show ?thesis using assms by (simp add: next_event_def)
next
  case (Cons a rest)
  then show ?thesis using assms by (cases a) (auto simp: next_event_def)
qed

lemma check_topic_body_ready:
  assumes "ready p w"
  shows "\<exists>r w'. check_topic_body w = Some (r, w') \<and> ready p w' \<and> p \<in> set (topics w')
     \<and> (r = Inr () \<or> r = Inl AlreadyExists) \<and> subscriptions w' = subscriptions w
     \<and> (p \<in> set (topics w) \<longrightarrow> topics w' = topics w \<and> r = Inr ())"
proof -
  let ?w1 = "glogger (Debug (''checking  .. topic='' @ shown (topic_path w))) w"
  have r1: "\<forall>e. Failing e \<notin> set (api ?w1)" using assms by (simp add: ready_def glogger_def)
  obtain a where a: "next_event ?w1 = (a, ?w1\<lparr>api := tl (api ?w1)\<rparr>)" "a = Proceed \<or> a = Rival"
    and t1: "\<forall>e. Failing e \<notin> set (tl (api ?w1))"
    using next_event_served [OF r1] by blast
  show ?thesis
  proof (cases "a = Rival \<or> p \<in> set (topics w)")
    case True
    then show ?thesis using assms a t1
      by (auto simp: check_topic_body_def get_topic_def ready_def glogger_def add_topic_def Let_def)
  next
    case False
    then have ap: "a = Proceed" and np: "p \<notin> set (topics w)" using a by auto
    let ?w2 = "?w1\<lparr>api := tl (api ?w1)\<rparr>"
    let ?w3 = "glogger (Info (''creating new topic .. '' @ shown (topic_path ?w2))) ?w2"
    have g: "get_topic (topic_path ?w1) ?w1 = (Inl NotFound, ?w2)"
      using assms a ap np by (simp add: get_topic_def ready_def glogger_def)
    have r3: "\<forall>e. Failing e \<notin> set (api ?w3)" using t1 by (simp add: glogger_def)
    obtain b where b: "next_event ?w3 = (b, ?w3\<lparr>api := tl (api ?w3)\<rparr>)" "b = Proceed \<or> b = Rival"
      and t3: "\<forall>e. Failing e \<notin> set (tl (api ?w3))"
      using next_event_served [OF r3] by blast
    have body: "check_topic_body w =
        (case create_topic (topic_path ?w3) ?w3 of
           (Inr r, w4) \<Rightarrow> Some (Inr (), w4)
         | (Inl e', w4) \<Rightarrow> Some (Inl e', w4))"
      using assms g unfolding check_topic_body_def by (simp add: Let_def ready_def glogger_def)
    show ?thesis unfolding body using assms b t3 np
      by (auto simp: create_topic_def ready_def glogger_def add_topic_def Let_def)
  qed
qed

lemma check_topic_ready:
  assumes "ready p w"
  shows "\<exists>x w'. check_topic (Suc fuel) w = Some (Inr x, w') \<and> ready p w' \<and> p \<in> set (topics w')
     \<and> subscriptions w' = subscriptions w
     \<and> (p \<in> set (topics w) \<longrightarrow> topics w' = topics w)"
  using check_topic_body_ready [OF assms]
  by (auto simp: check_topic_def)


lemma check_subscription_body_ready:
  assumes "ready p w"
  shows "\<exists>r w'. check_subscription_body (Suc fuel) q w = Some (r, w') \<and> ready p w'
     \<and> p \<in> set (topics w') \<and> q \<in> fst ` set (subscriptions w')
     \<and> (r = Inr () \<or> r = Inl AlreadyExists)
     \<and> (p \<in> set (topics w) \<and> q \<in> fst ` set (subscriptions w)
          \<longrightarrow> topics w' = topics w \<and> subscriptions w' = subscriptions w \<and> r = Inr ())"
proof -
  obtain x w1 where c: "check_topic (Suc fuel) w = Some (Inr x, w1)" and r1: "ready p w1"
    and p1: "p \<in> set (topics w1)" and s1: "subscriptions w1 = subscriptions w"
    and k1: "p \<in> set (topics w) \<longrightarrow> topics w1 = topics w"
    using check_topic_ready [OF assms] by blast
  let ?w2 = "glogger (Debug (''checking subscription .. '' @ q)) w1"
  have r2: "\<forall>e. Failing e \<notin> set (api ?w2)" using r1 by (simp add: ready_def glogger_def)
  obtain a where a: "next_event ?w2 = (a, ?w2\<lparr>api := tl (api ?w2)\<rparr>)" "a = Proceed \<or> a = Rival"
    and t2: "\<forall>e. Failing e \<notin> set (tl (api ?w2))"
    using next_event_served [OF r2] by blast
  show ?thesis
  proof (cases "a = Rival \<or> q \<in> fst ` set (subscriptions w)")
    case True
    then have "\<exists>t w3. get_subscription q ?w2 = (Inr t, w3) \<and> ready p w3 \<and> p \<in> set (topics w3)
        \<and> topics w3 = topics w1
        \<and> q \<in> fst ` set (subscriptions w3)
        \<and> (q \<in> fst ` set (subscriptions w) \<longrightarrow> subscriptions w3 = subscriptions w)"
      using a t2 r1 p1 s1
      by (auto simp: get_subscription_def ready_def glogger_def add_subscription_def Let_def
          map_of_eq_None_iff split: option.splits; force)
    then obtain t w3 where g: "get_subscription q ?w2 = (Inr t, w3)" and r3: "ready p w3"
      and p3: "p \<in> set (topics w3)" "topics w3 = topics w1" "q \<in> fst ` set (subscriptions w3)"
        "q \<in> fst ` set (subscriptions w) \<longrightarrow> subscriptions w3 = subscriptions w"
      by blast
    show ?thesis using c g r3 p3 k1
      by (simp add: check_subscription_body_def Let_def glogger_def ready_def)
  next
    case False
    then have ap: "a = Proceed" and nq: "q \<notin> fst ` set (subscriptions w)" using a by auto
    let ?w3 = "?w2\<lparr>api := tl (api ?w2)\<rparr>"
    let ?w4 = "glogger (Info (''registering new subscription .. '' @ q)) ?w3"
    have m: "map_of (subscriptions w) q = None" using nq by (simp add: map_of_eq_None_iff)
    have g: "get_subscription q ?w2 = (Inl NotFound, ?w3)"
      using a ap m s1 by (simp add: get_subscription_def glogger_def)
    have r4: "\<forall>e. Failing e \<notin> set (api ?w4)" using t2 by (simp add: glogger_def)
    obtain b where b: "next_event ?w4 = (b, ?w4\<lparr>api := tl (api ?w4)\<rparr>)" "b = Proceed \<or> b = Rival"
      and t4: "\<forall>e. Failing e \<notin> set (tl (api ?w4))"
      using next_event_served [OF r4] by blast
    have body: "check_subscription_body (Suc fuel) q w =
        (case create_subscription q (topic_path ?w4) ?w4 of
           (Inr r', w5) \<Rightarrow> Some (Inr (), w5)
         | (Inl e', w5) \<Rightarrow> Some (Inl e', w5))"
      using c g unfolding check_subscription_body_def by (simp add: Let_def)
    show ?thesis unfolding body using b t4 nq r1 p1 s1
      by (auto simp: create_subscription_def ready_def glogger_def add_subscription_def Let_def)
  qed
qed

lemma check_subscription_ready:
  assumes "ready p w"
  shows "\<exists>x w'. check_subscription (Suc fuel) q w = Some (Inr x, w') \<and> ready p w'
     \<and> p \<in> set (topics w') \<and> q \<in> fst ` set (subscriptions w')
     \<and> (p \<in> set (topics w) \<and> q \<in> fst ` set (subscriptions w)
          \<longrightarrow> topics w' = topics w \<and> subscriptions w' = subscriptions w)"
proof -
  obtain r w' where b: "check_subscription_body (Suc fuel) q w = Some (r, w')" "ready p w'"
     "p \<in> set (topics w')" "q \<in> fst ` set (subscriptions w')"
     "r = Inr () \<or> r = Inl AlreadyExists"
     "p \<in> set (topics w) \<and> q \<in> fst ` set (subscriptions w)
          \<longrightarrow> topics w' = topics w \<and> subscriptions w' = subscriptions w \<and> r = Inr ()"
    using check_subscription_body_ready [OF assms, of fuel q] by blast
  from b(5) have "\<exists>x. check_subscription (Suc fuel) q w = Some (Inr x, w')"
    using b(1) by (auto simp: check_subscription_def)
  then show ?thesis using b by blast
qed

lemma count_list_distinct: "distinct xs \<Longrightarrow> x \<in> set xs \<Longrightarrow> count_list xs x = 1"
  by (induction xs) auto

section \<open>Properties of the cloud client\<close>

text \<open>
  C3, as the code has it. One run of the body of \<^verbatim>\<open>exec_callback\<close> on a delivered message
  always ends. It returns exactly when the payload decoded and the user's callback
  returned without a fault, and exactly then is the message acknowledged; otherwise the
  list of acknowledged messages is as before, and a callback fault that is an \<open>Exception\<close>
  is replaced by a \<open>MessageProcessingException\<close>, while one that is not passes unchanged.
  The function that \<^verbatim>\<open>consume\<close> hands to the subscriber is the decorated one, and the
  decorator counts \<open>MessageProcessingException\<close> among the expected faults. So when the
  callback returns, the decorated function returns with the message acknowledged; when the
  callback raises an \<open>Exception\<close>, the decorated function logs it and runs the body again
  on the state that call left, in which the message is not acknowledged; when the callback
  raises what is not an \<open>Exception\<close>, that is raised with the message not acknowledged.
  Whenever the decorated function comes back, it has not raised a
  \<open>MessageProcessingException\<close>: it either returned, with the message acknowledged, or
  raised what is not an \<open>Exception\<close>, with the message not acknowledged.
\<close>

theorem exec_callback_acknowledges_and_retries:
  "(\<exists>r w'. gcp_exec_callback_body callback m w = Some (r, w')
     \<and> (r = Inr () \<longleftrightarrow> (\<exists>s u'. decode (data m) = Some s \<and> callback s (guser w) = (None, u')))
     \<and> acked w' = (if r = Inr () then acked w @ [message_id m] else acked w)
     \<and> (\<forall>s e u'. decode (data m) = Some s \<and> callback s (guser w) = (Some e, u')
            \<longrightarrow> r = Inl (if is_Exception e then MessageProcessingException else e)
                \<and> acked w' = acked w))
   \<and> (\<forall>s u'. decode (data m) = Some s \<and> callback s (guser w) = (None, u') \<longrightarrow>
         gcp_exec_callback (Suc fuel) callback m w
           = Some (Inr (Some ()), w\<lparr>ghanded := ghanded w @ [s], guser := u',
                                     acked := acked w @ [message_id m]\<rparr>))
   \<and> (\<forall>s e u'. decode (data m) = Some s \<and> callback s (guser w) = (Some e, u') \<longrightarrow>
         gcp_exec_callback (Suc fuel) callback m w
           = (if is_Exception e
              then gcp_exec_callback fuel callback m
                     (w\<lparr>ghanded := ghanded w @ [s], guser := u', glog := glog w @ [Error e]\<rparr>)
              else Some (Inl e, w\<lparr>ghanded := ghanded w @ [s], guser := u'\<rparr>)))
   \<and> (\<forall>n r w'. gcp_exec_callback n callback m w = Some (r, w') \<longrightarrow>
         r \<noteq> Inl MessageProcessingException
         \<and> ((r = Inr (Some ()) \<and> acked w' = acked w @ [message_id m])
            \<or> (\<exists>e. r = Inl e \<and> \<not> is_Exception e \<and> acked w' = acked w)))"
proof (intro conjI allI impI)
  show "\<exists>r w'. gcp_exec_callback_body callback m w = Some (r, w')
     \<and> (r = Inr () \<longleftrightarrow> (\<exists>s u'. decode (data m) = Some s \<and> callback s (guser w) = (None, u')))
     \<and> acked w' = (if r = Inr () then acked w @ [message_id m] else acked w)
     \<and> (\<forall>s e u'. decode (data m) = Some s \<and> callback s (guser w) = (Some e, u')
            \<longrightarrow> r = Inl (if is_Exception e then MessageProcessingException else e)
                \<and> acked w' = acked w)"
    by (rule exec_callback_body_outcome)
next
  fix s u' assume "decode (data m) = Some s \<and> callback s (guser w) = (None, u')"
  then have "decode (data m) = Some s" "callback s (guser w) = (None, u')" by simp_all
  then show "gcp_exec_callback (Suc fuel) callback m w
           = Some (Inr (Some ()), w\<lparr>ghanded := ghanded w @ [s], guser := u',
                                     acked := acked w @ [message_id m]\<rparr>)"
    by (rule exec_callback_returns)
next
  fix s e u' assume "decode (data m) = Some s \<and> callback s (guser w) = (Some e, u')"
  then have "decode (data m) = Some s" "callback s (guser w) = (Some e, u')" by simp_all
  then show "gcp_exec_callback (Suc fuel) callback m w
           = (if is_Exception e
              then gcp_exec_callback fuel callback m
                     (w\<lparr>ghanded := ghanded w @ [s], guser := u', glog := glog w @ [Error e]\<rparr>)
              else Some (Inl e, w\<lparr>ghanded := ghanded w @ [s], guser := u'\<rparr>))"
    by (rule exec_callback_raises)
next
  fix n r w' assume a: "gcp_exec_callback n callback m w = Some (r, w')"
  show "r \<noteq> Inl MessageProcessingException" using exec_callback_no_processing_fault [OF a] by simp
  show "(r = Inr (Some ()) \<and> acked w' = acked w @ [message_id m])
            \<or> (\<exists>e. r = Inl e \<and> \<not> is_Exception e \<and> acked w' = acked w)"
    using exec_callback_no_processing_fault [OF a] by simp
qed

theorem exec_callback_acknowledges_and_retries_witness:
  "decode (data delivery) = Some [104, 105]
   \<and> counting [104, 105] (guser opened_gcp) = (None, 1)
   \<and> gcp_exec_callback (Suc 0) counting delivery opened_gcp
     = Some (Inr (Some ()), opened_gcp\<lparr>ghanded := [[104, 105]], guser := 1, acked := [7]\<rparr>)
   \<and> gcp_exec_callback (Suc 0) (\<lambda>s n. (Some (SystemExit 1), Suc n)) delivery opened_gcp
     = Some (Inl (SystemExit 1), opened_gcp\<lparr>ghanded := [[104, 105]], guser := 1\<rparr>)
   \<and> flaky [104, 105] (guser opened_gcp) = (Some RedisConnectionError, 1)
   \<and> gcp_exec_callback (Suc 1) flaky delivery opened_gcp
     = Some (Inr (Some ()),
             opened_gcp\<lparr>ghanded := [[104, 105], [104, 105]], guser := 2,
               glog := [Error RedisConnectionError], acked := [7]\<rparr>)"
proof -
  have d: "decode (data delivery) = Some [104, 105]"
    by (simp add: delivery_def)
  have c: "counting [104, 105] (guser opened_gcp) = (None, 1)"
    by (simp add: counting_def opened_gcp_def)
  have x: "(\<lambda>s n. (Some (SystemExit 1), Suc n)) [104, 105] (guser opened_gcp)
      = (Some (SystemExit 1), 1)"
    by (simp add: opened_gcp_def)
  have f: "flaky [104, 105] (guser opened_gcp) = (Some RedisConnectionError, 1)"
    by (simp add: flaky_def opened_gcp_def)
  have 1: "gcp_exec_callback (Suc 0) counting delivery opened_gcp
     = Some (Inr (Some ()), opened_gcp\<lparr>ghanded := ghanded opened_gcp @ [[104, 105]], guser := 1,
          acked := acked opened_gcp @ [message_id delivery]\<rparr>)"
    using exec_callback_acknowledges_and_retries
      [of counting delivery opened_gcp 0, THEN conjunct2, THEN conjunct1, rule_format,
       of "[104, 105]" 1] d c
    by simp
  have 2: "gcp_exec_callback (Suc 0) (\<lambda>s n. (Some (SystemExit 1), Suc n)) delivery opened_gcp
     = (if is_Exception (SystemExit 1)
        then gcp_exec_callback 0 (\<lambda>s n. (Some (SystemExit 1), Suc n)) delivery
               (opened_gcp\<lparr>ghanded := ghanded opened_gcp @ [[104, 105]], guser := 1,
                  glog := glog opened_gcp @ [Error (SystemExit 1)]\<rparr>)
        else Some (Inl (SystemExit 1),
               opened_gcp\<lparr>ghanded := ghanded opened_gcp @ [[104, 105]], guser := 1\<rparr>))"
    using exec_callback_acknowledges_and_retries
      [of "\<lambda>s n. (Some (SystemExit 1), Suc n)" delivery opened_gcp 0,
       THEN conjunct2, THEN conjunct2, THEN conjunct1, rule_format,
       of "[104, 105]" "SystemExit 1" 1] d x
    by simp
  have 3: "gcp_exec_callback (Suc 1) flaky delivery opened_gcp
     = (if is_Exception RedisConnectionError
        then gcp_exec_callback 1 flaky delivery
               (opened_gcp\<lparr>ghanded := ghanded opened_gcp @ [[104, 105]], guser := 1,
                  glog := glog opened_gcp @ [Error RedisConnectionError]\<rparr>)
        else Some (Inl RedisConnectionError,
               opened_gcp\<lparr>ghanded := ghanded opened_gcp @ [[104, 105]], guser := 1\<rparr>))"
    using exec_callback_acknowledges_and_retries
      [of flaky delivery opened_gcp 1, THEN conjunct2, THEN conjunct2, THEN conjunct1,
       rule_format, of "[104, 105]" RedisConnectionError 1] d f
    by simp
  have 4: "gcp_exec_callback 1 flaky delivery
               (opened_gcp\<lparr>ghanded := ghanded opened_gcp @ [[104, 105]], guser := 1,
                  glog := glog opened_gcp @ [Error RedisConnectionError]\<rparr>)
     = Some (Inr (Some ()),
             opened_gcp\<lparr>ghanded := [[104, 105], [104, 105]], guser := 2,
               glog := [Error RedisConnectionError], acked := [7]\<rparr>)"
    by (simp add: gcp_exec_callback_def gcp_exec_callback_body_def flaky_def delivery_def
        opened_gcp_def)
  show ?thesis
    unfolding 1 2 3 4 using d c f by (simp add: opened_gcp_def delivery_def)
qed

text \<open>
  The property as the specification states it fails on the path of \<^verbatim>\<open>consume\<close>: a callback
  that always raises makes the decorated function use up its attempts without raising a
  \<open>MessageProcessingException\<close>, and a callback that raises once is called again, returns,
  and the message is acknowledged in the same call.
\<close>

theorem exec_callback_never_raises_processing_fault:
  "failing [104, 105] 0 = (Some (OtherError ''boom''), 1)
   \<and> gcp_exec_callback (Suc (Suc (Suc 0))) failing delivery opened_gcp = None
   \<and> flaky [104, 105] 0 = (Some RedisConnectionError, 1)
   \<and> gcp_exec_callback (Suc (Suc (Suc 0))) flaky delivery opened_gcp
     = Some (Inr (Some ()),
             opened_gcp\<lparr>ghanded := [[104, 105], [104, 105]], guser := 2,
               glog := [Error RedisConnectionError], acked := [7]\<rparr>)"
  by (simp add: gcp_exec_callback_def gcp_exec_callback_body_def glogger_def
      failing_def flaky_def delivery_def opened_gcp_def)

text \<open>
  While the callback keeps raising an \<open>Exception\<close>, the decorated function does not come
  back, however many attempts it is given, and the message stays unacknowledged.
\<close>

lemma exec_callback_never_returns_while_callback_fails:
  assumes "\<And>s u. is_Exception (the (fst (callback s u))) \<and> fst (callback s u) \<noteq> None"
    and "decode (data m) \<noteq> None"
  shows "gcp_exec_callback fuel callback m w = None"
proof (induction fuel arbitrary: w)
  case 0
  then show ?case by (simp add: gcp_exec_callback_def)
next
  case (Suc fuel)
  obtain s where s: "decode (data m) = Some s" using assms(2) by auto
  obtain e u' where c: "callback s (guser w) = (Some e, u')" "is_Exception e"
    using assms(1) [of s "guser w"] by (cases "callback s (guser w)") auto
  have "gcp_exec_callback_body callback m w
      = Some (Inl MessageProcessingException,
              glogger (Error e) (w\<lparr>ghanded := ghanded w @ [s], guser := u'\<rparr>))"
    using s c by (simp add: gcp_exec_callback_body_def)
  then show ?case using Suc.IH by (simp add: gcp_exec_callback_def)
qed

text \<open>
  C6. The client was opened, the service serves every call (a rival may create the
  resource at any of them) and holds no name twice. Then \<^verbatim>\<open>check_topic\<close> run twice in a row
  returns both times, the second run changes neither the topics nor the subscriptions, and
  the topic exists exactly once afterwards. The same holds of \<^verbatim>\<open>check_subscription\<close>, after
  which the subscription too exists exactly once.
\<close>

theorem provisioning_idempotent:
  assumes "publisher_client w" "topic_path w = Some p" "\<forall>e. Failing e \<notin> set (api w)"
    and "distinct (topics w)" "distinct (map fst (subscriptions w))"
  shows "(\<exists>x1 w1 x2 w2. check_topic (Suc fuel) w = Some (Inr x1, w1)
            \<and> check_topic (Suc fuel) w1 = Some (Inr x2, w2)
            \<and> topics w2 = topics w1 \<and> subscriptions w2 = subscriptions w1
            \<and> count_list (topics w2) p = 1)
       \<and> (\<exists>x1 w1 x2 w2. check_subscription (Suc fuel) q w = Some (Inr x1, w1)
            \<and> check_subscription (Suc fuel) q w1 = Some (Inr x2, w2)
            \<and> topics w2 = topics w1 \<and> subscriptions w2 = subscriptions w1
            \<and> count_list (topics w2) p = 1 \<and> count_list (map fst (subscriptions w2)) q = 1)"
proof
  have r: "ready p w" using assms by (simp add: ready_def)
  obtain x1 w1 where 1: "check_topic (Suc fuel) w = Some (Inr x1, w1)" "ready p w1"
    "p \<in> set (topics w1)"
    using check_topic_ready [OF r] by blast
  obtain x2 w2 where 2: "check_topic (Suc fuel) w1 = Some (Inr x2, w2)" "ready p w2"
    "subscriptions w2 = subscriptions w1" "p \<in> set (topics w1) \<longrightarrow> topics w2 = topics w1"
    using check_topic_ready [OF 1(2)] by blast
  have "count_list (topics w2) p = 1"
    using 1 2 by (simp add: count_list_distinct ready_def)
  then show "\<exists>x1 w1 x2 w2. check_topic (Suc fuel) w = Some (Inr x1, w1)
            \<and> check_topic (Suc fuel) w1 = Some (Inr x2, w2)
            \<and> topics w2 = topics w1 \<and> subscriptions w2 = subscriptions w1
            \<and> count_list (topics w2) p = 1"
    using 1 2 by auto
next
  have r: "ready p w" using assms by (simp add: ready_def)
  obtain x1 w1 where 1: "check_subscription (Suc fuel) q w = Some (Inr x1, w1)" "ready p w1"
    "p \<in> set (topics w1)" "q \<in> fst ` set (subscriptions w1)"
    using check_subscription_ready [OF r] by blast
  obtain x2 w2 where 2: "check_subscription (Suc fuel) q w1 = Some (Inr x2, w2)" "ready p w2"
    "p \<in> set (topics w1) \<and> q \<in> fst ` set (subscriptions w1)
          \<longrightarrow> topics w2 = topics w1 \<and> subscriptions w2 = subscriptions w1"
    using check_subscription_ready [OF 1(2)] by blast
  have e: "topics w2 = topics w1" "subscriptions w2 = subscriptions w1" using 1 2 by auto
  have "count_list (topics w2) p = 1" "count_list (map fst (subscriptions w2)) q = 1"
    using 1 e by (simp_all add: count_list_distinct ready_def)
  then show "\<exists>x1 w1 x2 w2. check_subscription (Suc fuel) q w = Some (Inr x1, w1)
            \<and> check_subscription (Suc fuel) q w1 = Some (Inr x2, w2)
            \<and> topics w2 = topics w1 \<and> subscriptions w2 = subscriptions w1
            \<and> count_list (topics w2) p = 1 \<and> count_list (map fst (subscriptions w2)) q = 1"
    using 1 2 e by auto
qed

text \<open>
  The theorem at work on a service without topics, once undisturbed and once with a rival
  that creates the topic between the lookup and the creation: the first run creates the
  topic, or has its \<open>AlreadyExists\<close> suppressed, and the second run finds it.
\<close>

theorem provisioning_idempotent_witness:
  "publisher_client opened_gcp \<and> topic_path opened_gcp = Some ''projects/p/topics/t''
   \<and> (\<forall>e. Failing e \<notin> set (api opened_gcp))
   \<and> distinct (topics opened_gcp) \<and> distinct (map fst (subscriptions opened_gcp))
   \<and> map_option (\<lambda>(r, w). (r, topics w)) (check_topic (Suc 0) opened_gcp)
       = Some (Inr (Some ()), [''projects/p/topics/t''])
   \<and> map_option (\<lambda>(r, w). (r, topics w)) (check_topic (Suc 0) (opened_gcp\<lparr>api := [Proceed, Rival]\<rparr>))
       = Some (Inr None, [''projects/p/topics/t''])
   \<and> map_option (\<lambda>(r, w). (r, topics w))
        (check_topic (Suc 0) (opened_gcp\<lparr>topics := [''projects/p/topics/t'']\<rparr>))
       = Some (Inr (Some ()), [''projects/p/topics/t''])
   \<and> map_option (\<lambda>(r, w). (r, topics w, subscriptions w))
        (check_subscription (Suc 0) ''projects/p/subscriptions/s'' opened_gcp)
       = Some (Inr (Some ()), [''projects/p/topics/t''],
               [(''projects/p/subscriptions/s'', Some ''projects/p/topics/t'')])"
proof -
  have h: "publisher_client opened_gcp" "topic_path opened_gcp = Some ''projects/p/topics/t''"
    "\<forall>e. Failing e \<notin> set (api opened_gcp)"
    "distinct (topics opened_gcp)" "distinct (map fst (subscriptions opened_gcp))"
    by (simp_all add: opened_gcp_def)
  show ?thesis
    using h provisioning_idempotent [OF h, of 0 "''projects/p/subscriptions/s''"]
    by (simp add: check_topic_def check_topic_body_def check_subscription_def
        check_subscription_body_def get_topic_def create_topic_def get_subscription_def
        create_subscription_def next_event_def add_topic_def add_subscription_def glogger_def
        opened_gcp_def Let_def)
qed

text \<open>
  C8. \<^verbatim>\<open>GCPPubSub.consume\<close> does the same whatever dead-letter topic it is given, and it
  publishes nothing: the messages the service has accepted are the same after the call as
  before, whatever was delivered and however the callback answered.
\<close>

theorem consume_ignores_deadLetter:
  "GCPPubSub_consume fuel callback subscription deadLetter st
     = GCPPubSub_consume fuel callback subscription deadLetter' st
   \<and> (\<forall>r rest w'. GCPPubSub_consume fuel callback subscription deadLetter (items, w) = Some (r, rest, w')
        \<longrightarrow> outbox w' = outbox w)"
proof
  show "GCPPubSub_consume fuel callback subscription deadLetter st
     = GCPPubSub_consume fuel callback subscription deadLetter' st"
    by (simp add: GCPPubSub_consume_def gcp_consume_body_def [abs_def])
next
  have "outbox (snd s') = outbox (snd s)"
    if "connexion fuel [ServiceUnavailable, RetryError] [AlreadyExists, NotFound, TimeoutError]
       (gcp_consume_body fuel callback subscription deadLetter) s = Some (r, s')" for r s s'
    using that
    by (rule connexion_keeps [where f = "\<lambda>s. outbox (snd s)", rotated])
       (auto dest: gcp_consume_body_outbox)
  then show "\<forall>r rest w'. GCPPubSub_consume fuel callback subscription deadLetter (items, w) = Some (r, rest, w')
        \<longrightarrow> outbox w' = outbox w"
    unfolding GCPPubSub_consume_def by fastforce
qed

theorem consume_ignores_deadLetter_witness:
  "GCPPubSub_consume 2 flaky None (Some ''dead'') ([Delivers delivery], opened_gcp)
     = GCPPubSub_consume 2 flaky None None ([Delivers delivery], opened_gcp)
   \<and> map_option (\<lambda>(r, rest, w). (r, rest, outbox w, ghanded w, acked w))
        (GCPPubSub_consume 2 flaky None (Some ''dead'') ([Delivers delivery], opened_gcp))
     = Some (Inr (Some ()), [], [], [[104, 105], [104, 105]], [7])"
  using consume_ignores_deadLetter
    [of 2 flaky None "Some ''dead''" "([Delivers delivery], opened_gcp)" None "[Delivers delivery]"
      opened_gcp]
  by (simp add: flaky_def opened_gcp_def sample_env_def delivery_def numeral_2_eq_2
      GCPPubSub_consume_def gcp_consume_body_def glogger_def
      check_subscription_def check_subscription_body_def check_topic_def check_topic_body_def
      get_topic_def create_topic_def get_subscription_def create_subscription_def
      gcp_exec_callback_def gcp_exec_callback_body_def next_event_def Let_def)

section \<open>Interruption of consume\<close>

text \<open>
  C7, as the code has it. In the key-value-store client, once the subscription is made, a
  \<open>KeyboardInterrupt\<close> that leaves the event loop (raised by the blocking iteration, or
  while a received event is handled) makes \<^verbatim>\<open>consume\<close> log \<open>graceful exit\<close> and return. In
  the cloud client, once the subscription is provisioned, a \<open>KeyboardInterrupt\<close> raised by
  the wait on the streaming future makes \<^verbatim>\<open>consume\<close> cancel the future and return. In both
  the caller sees a normal return.
\<close>

theorem consume_interrupted_returns:
  "(client v = Some c
      \<and> round_trip (logger (Debug ''consuming ..'') v\<lparr>pubsub := Some []\<rparr>) = (None, v2)
      \<and> event_loop (Suc fuel) callback' deadLetter events (v2\<lparr>pubsub := Some [topic v2]\<rparr>)
           = Some (Inl KeyboardInterrupt, rest', v3)
     \<longrightarrow> RedisPubsub_consume (Suc fuel) callback' deadLetter (events, v)
           = Some (Inr (Some ()), rest', logger (Info ''graceful exit'') v3))
   \<and> (environ_GOOGLE_PROJECT (env w) = Some project
      \<and> check_subscription (Suc fuel)
           (''projects/'' @ project @ ''/subscriptions/''
              @ (if truthy subscription then the subscription else SUBSCRIPTION_NAME (env w)))
           (glogger (Debug ''consuming ..'') w) = Some (Inr x, w2)
      \<and> streaming_pull (Suc fuel) callback items w2 = Some (Inl KeyboardInterrupt, rest, w3)
     \<longrightarrow> GCPPubSub_consume (Suc fuel) callback subscription deadLetter (items, w)
           = Some (Inr (Some ()), rest, w3\<lparr>cancelled := True\<rparr>))"
  by (simp add: RedisPubsub_consume_def redis_consume_body_def logger_def
      GCPPubSub_consume_def gcp_consume_body_def glogger_def Let_def)

text \<open>
  Where the interruption can come from inside the event loop: the iteration itself, or the
  user's callback, whose \<open>KeyboardInterrupt\<close> the handler \<^verbatim>\<open>except Exception\<close> does not
  catch.
\<close>

lemma event_loop_interrupted_in_callback:
  assumes "ev_type msg = ''message''" "ev_data msg = DataBytes b" "decode b = Some s"
    and "callback s (user w) = (Some KeyboardInterrupt, u')"
  shows "event_loop (Suc fuel) callback deadLetter (Yields msg # rest) w
     = Some (Inl KeyboardInterrupt, rest, w\<lparr>handed := handed w @ [s], user := u'\<rparr>)"
  using assms
  by (simp add: redis_exec_callback_def redis_exec_callback_body_def transport_faults_def)

theorem consume_interrupted_returns_witness:
  "client opened_redis = Some Live
   \<and> round_trip (logger (Debug ''consuming ..'') opened_redis\<lparr>pubsub := Some []\<rparr>)
       = (None, opened_redis\<lparr>log := [Debug ''consuming ..''], pubsub := Some []\<rparr>)
   \<and> event_loop (Suc 1) counting None
         [Yields confirmation, Yields greeting, ListenRaises KeyboardInterrupt, Yields greeting]
         (opened_redis\<lparr>log := [Debug ''consuming ..''], pubsub := Some [''t'']\<rparr>)
       = Some (Inl KeyboardInterrupt, [Yields greeting],
           opened_redis\<lparr>log := [Debug ''consuming ..''], pubsub := Some [''t''],
             handed := [[104, 105]], user := 1\<rparr>)
   \<and> RedisPubsub_consume (Suc 1) counting None
         ([Yields confirmation, Yields greeting, ListenRaises KeyboardInterrupt, Yields greeting],
          opened_redis)
       = Some (Inr (Some ()), [Yields greeting],
           opened_redis\<lparr>log := [Debug ''consuming ..'', Info ''graceful exit''],
             pubsub := Some [''t''], handed := [[104, 105]], user := 1\<rparr>)
   \<and> environ_GOOGLE_PROJECT (env opened_gcp) = Some ''p''
   \<and> (\<exists>w2 w3.
         check_subscription (Suc 1) ''projects/p/subscriptions/s''
           (glogger (Debug ''consuming ..'') opened_gcp) = Some (Inr (Some ()), w2)
         \<and> streaming_pull (Suc 1) counting
             [Delivers delivery, ResultRaises KeyboardInterrupt, Delivers delivery] w2
           = Some (Inl KeyboardInterrupt, [Delivers delivery], w3)
         \<and> GCPPubSub_consume (Suc 1) counting None None
             ([Delivers delivery, ResultRaises KeyboardInterrupt, Delivers delivery], opened_gcp)
           = Some (Inr (Some ()), [Delivers delivery], w3\<lparr>cancelled := True\<rparr>)
         \<and> acked w3 = [7] \<and> \<not> cancelled w3)"
  using consume_interrupted_returns
    [where v = opened_redis and c = Live and fuel = 1 and callback' = counting
       and deadLetter = None
       and events = "[Yields confirmation, Yields greeting, ListenRaises KeyboardInterrupt,
                      Yields greeting]"
       and w = opened_gcp and project = "''p''" and subscription = None and callback = counting
       and items = "[Delivers delivery, ResultRaises KeyboardInterrupt, Delivers delivery]"]
  by (simp add: counting_def greeting_def confirmation_def opened_redis_def RedisPubsub_consume_def
      redis_consume_body_def logger_def round_trip_def transport_faults_def
      redis_exec_callback_def redis_exec_callback_body_def continuation_def
      GCPPubSub_consume_def gcp_consume_body_def glogger_def opened_gcp_def sample_env_def
      check_subscription_def check_subscription_body_def check_topic_def check_topic_body_def
      get_topic_def create_topic_def get_subscription_def create_subscription_def
      gcp_exec_callback_def gcp_exec_callback_body_def delivery_def
      next_event_def Let_def)

text \<open>
  The property as the specification states it fails for an interruption that arrives while
  \<^verbatim>\<open>consume\<close> is still setting up, before either \<^verbatim>\<open>try\<close> is entered: during the
  \<^verbatim>\<open>subscribe\<close> round trip of the key-value-store client, or during the provisioning calls
  of the cloud client. The \<open>KeyboardInterrupt\<close> then reaches the caller.
\<close>

theorem consume_interrupted_during_setup:
  "map_option fst (RedisPubsub_consume 2 counting None
       ([Yields greeting], opened_redis\<lparr>network := [Some KeyboardInterrupt]\<rparr>))
     = Some (Inl KeyboardInterrupt)
   \<and> map_option fst (GCPPubSub_consume 2 counting None None
       ([Delivers delivery], opened_gcp\<lparr>api := [Failing KeyboardInterrupt]\<rparr>))
     = Some (Inl KeyboardInterrupt)"
  by (simp add: counting_def greeting_def opened_redis_def RedisPubsub_consume_def
      redis_consume_body_def logger_def round_trip_def transport_faults_def numeral_2_eq_2
      GCPPubSub_consume_def gcp_consume_body_def glogger_def opened_gcp_def sample_env_def
      check_subscription_def check_subscription_body_def check_topic_def check_topic_body_def
      get_topic_def next_event_def Let_def)

end
